theory Spec2Isabelle
  imports Complex_Main "HOL-Library.Word"
begin

unbundle bit_operations_syntax

section \<open>Scalars, points and vectors\<close>

text \<open>
  \<^verbatim>\<open>GrAAConvexPathRenderer.cpp\<close> computes with \<^verbatim>\<open>GrScalar\<close>/\<^verbatim>\<open>SkScalar\<close>, whose
  declaration is in a header that is not part of the sources at hand. The
  development takes the scalar to be an exact real number: the statements below are
  about the arithmetic the code writes down, not about its rounding. The one exception
  is \<^verbatim>\<open>center_of_mass\<close>, which asserts that its result is no NaN: its arithmetic is
  modelled with overflow to the infinities and with not-a-number.
\<close>

type_synonym GrScalar = real

text \<open>
  Modelled from the spec: \<^verbatim>\<open>SK_Scalar1\<close> and \<^verbatim>\<open>GR_Scalar1\<close> are defined in the
  missing scalar headers; they are the scalar one (the spec's "1/16 unit", "one unit
  outward").
\<close>

abbreviation (input) SK_Scalar1 :: GrScalar where
  "SK_Scalar1 \<equiv> 1"

abbreviation (input) GR_Scalar1 :: GrScalar where
  "GR_Scalar1 \<equiv> 1"

text \<open>
  Modelled from the spec: \<^verbatim>\<open>GR_ScalarMax\<close> is defined in the missing \<^verbatim>\<open>GrScalar.h\<close>;
  the spec calls the value derived from it "a large-magnitude sentinel". The value is the
  largest finite single-precision number.
\<close>

definition GR_ScalarMax :: GrScalar where
  "GR_ScalarMax = 340282346638528859811704183484516925440"

record SkPoint =
  fX :: GrScalar
  fY :: GrScalar

definition mkPt :: "GrScalar \<Rightarrow> GrScalar \<Rightarrow> SkPoint" where
  "mkPt x y = \<lparr>fX = x, fY = y\<rparr>"

datatype Side = kLeft_Side | kRight_Side

text \<open>
  Modelled from the spec: the point/vector helpers (\<^verbatim>\<open>operator+\<close>, \<^verbatim>\<open>operator-\<close>,
  \<^verbatim>\<open>dot\<close>, \<^verbatim>\<open>scale\<close>, \<^verbatim>\<open>distanceToSqd\<close>, \<^verbatim>\<open>normalize\<close>, \<^verbatim>\<open>setOrthog\<close>) are
  declared in \<^verbatim>\<open>SkPoint.h\<close>, which is missing. The spec's data model says: "2D scalar
  pairs; vectors support normalize, dot product, and 90-degree rotation to a chosen side".
  \<open>pt_normalize\<close> scales a vector to length one and leaves the zero vector as it is;
  \<open>setOrthog\<close> rotates by a quarter turn, and its two sides are opposite.
\<close>

definition pt_add :: "SkPoint \<Rightarrow> SkPoint \<Rightarrow> SkPoint" where
  "pt_add a b = \<lparr>fX = fX a + fX b, fY = fY a + fY b\<rparr>"

definition pt_sub :: "SkPoint \<Rightarrow> SkPoint \<Rightarrow> SkPoint" where
  "pt_sub a b = \<lparr>fX = fX a - fX b, fY = fY a - fY b\<rparr>"

definition pt_neg :: "SkPoint \<Rightarrow> SkPoint" where
  "pt_neg a = \<lparr>fX = - fX a, fY = - fY a\<rparr>"

definition dot :: "SkPoint \<Rightarrow> SkPoint \<Rightarrow> GrScalar" where
  "dot a b = fX a * fX b + fY a * fY b"

definition pt_scale :: "GrScalar \<Rightarrow> SkPoint \<Rightarrow> SkPoint" where
  "pt_scale s a = \<lparr>fX = fX a * s, fY = fY a * s\<rparr>"

definition lengthSqd :: "SkPoint \<Rightarrow> GrScalar" where
  "lengthSqd a = dot a a"

definition distanceToSqd :: "SkPoint \<Rightarrow> SkPoint \<Rightarrow> GrScalar" where
  "distanceToSqd a b = lengthSqd (pt_sub a b)"

definition pt_normalize :: "SkPoint \<Rightarrow> SkPoint" where
  "pt_normalize a =
     (let len = sqrt (lengthSqd a)
      in if len = 0 then a else \<lparr>fX = fX a / len, fY = fY a / len\<rparr>)"

definition setOrthog :: "SkPoint \<Rightarrow> Side \<Rightarrow> SkPoint" where
  "setOrthog vec side =
     (if side = kRight_Side then \<lparr>fX = - fY vec, fY = fX vec\<rparr>
      else \<lparr>fX = fY vec, fY = - fX vec\<rparr>)"

section \<open>The degeneracy classifier\<close>

datatype Stage = kInitial | kPoint | kLine_Stage | kNonDegenerate

record DegenerateTestData =
  fStage :: Stage
  fFirstPoint :: SkPoint
  fLineNormal :: SkPoint
  fLineC :: GrScalar

text \<open>
  The constructor only sets \<open>fStage\<close>; the other three fields start uninitialised in
  the source. They are written before they are read, so the model starts them at zero.
\<close>

definition DegenerateTestData_new :: DegenerateTestData where
  "DegenerateTestData_new =
     \<lparr>fStage = kInitial, fFirstPoint = mkPt 0 0, fLineNormal = mkPt 0 0, fLineC = 0\<rparr>"

definition isDegenerate :: "DegenerateTestData \<Rightarrow> bool" where
  "isDegenerate data = (kNonDegenerate \<noteq> fStage data)"

definition TOL :: GrScalar where
  "TOL = SK_Scalar1 / 16"

definition TOL_SQD :: GrScalar where
  "TOL_SQD = TOL * TOL"

text \<open>
  \<^verbatim>\<open>update_degenerate_test\<close>: one \<^verbatim>\<open>switch\<close> on the stage. The \<^verbatim>\<open>kLine\<close> case falls
  through to the \<^verbatim>\<open>break\<close> of \<^verbatim>\<open>kNonDegenerate\<close>; the \<^verbatim>\<open>default\<close> branch
  (\<^verbatim>\<open>GrCrash\<close>) has no stage left to cover. \<^verbatim>\<open>setOrthog\<close> is called with its default
  side.
\<close>

definition update_degenerate_test :: "DegenerateTestData \<Rightarrow> SkPoint \<Rightarrow> DegenerateTestData" where
  "update_degenerate_test data pt =
     (case fStage data of
        kInitial \<Rightarrow> data\<lparr>fStage := kPoint, fFirstPoint := pt\<rparr>
      | kPoint \<Rightarrow>
          if distanceToSqd pt (fFirstPoint data) > TOL_SQD then
            (let n = setOrthog (pt_normalize (pt_sub pt (fFirstPoint data))) kLeft_Side
             in data\<lparr>fStage := kLine_Stage, fLineNormal := n,
                     fLineC := - dot n (fFirstPoint data)\<rparr>)
          else data
      | kLine_Stage \<Rightarrow>
          if \<bar>dot (fLineNormal data) pt + fLineC data\<bar> > TOL
          then data\<lparr>fStage := kNonDegenerate\<rparr>
          else data
      | kNonDegenerate \<Rightarrow> data)"

section \<open>Segments\<close>

datatype SegType = kLine | kQuad

text \<open>
  \<^verbatim>\<open>struct Segment\<close>. The two-element arrays \<^verbatim>\<open>fPts\<close> and \<^verbatim>\<open>fNorms\<close> are functions
  from the index; the code only ever reads and writes the indices 0 and 1.
\<close>

record Segment =
  fType :: SegType
  fPts :: "nat \<Rightarrow> SkPoint"
  fNorms :: "nat \<Rightarrow> SkPoint"
  fMid :: SkPoint

definition countPoints :: "Segment \<Rightarrow> nat" where
  "countPoints s = (if kLine = fType s then 1 else 2)"

definition endPt :: "Segment \<Rightarrow> SkPoint" where
  "endPt s = (if kLine = fType s then fPts s 0 else fPts s 1)"

definition endNorm :: "Segment \<Rightarrow> SkPoint" where
  "endNorm s = (if kLine = fType s then fNorms s 0 else fNorms s 1)"

text \<open>
  \<^verbatim>\<open>segments->push_back()\<close> appends a segment whose fields are not initialised; the
  caller then sets the type and the points. The fields it does not set are read by nobody
  before \<^verbatim>\<open>compute_vectors\<close> writes them, and start at zero here.
\<close>

definition push_line :: "SkPoint \<Rightarrow> Segment" where
  "push_line p =
     \<lparr>fType = kLine, fPts = (\<lambda>_. mkPt 0 0)(0 := p), fNorms = (\<lambda>_. mkPt 0 0), fMid = mkPt 0 0\<rparr>"

definition push_quad :: "SkPoint \<Rightarrow> SkPoint \<Rightarrow> Segment" where
  "push_quad p0 p1 =
     \<lparr>fType = kQuad, fPts = (\<lambda>_. mkPt 0 0)(0 := p0, 1 := p1), fNorms = (\<lambda>_. mkPt 0 0),
      fMid = mkPt 0 0\<rparr>"

section \<open>Errors\<close>

text \<open>
  The assertions of the source (\<^verbatim>\<open>GrAssert\<close>, and the bounds check inside the array
  class) are branches of the model: a failed assertion is an error value.
  \<open>InfiniteCenter\<close> is the one error that is no assertion of the source: it stands for
  a fan point with an infinite coordinate, with which the source goes on and which the
  points of this model, pairs of numbers, cannot hold.
\<close>

datatype error = NotConvex | NaNCenter | InfiniteCenter | DirectionUnknown | IndexOutOfRange

section \<open>The fan point\<close>

text \<open>
  Modelled from the spec: \<^verbatim>\<open>SK_ScalarNearlyZero\<close> is defined in the missing
  \<^verbatim>\<open>SkScalar.h\<close>; the spec calls it "a small epsilon". The value is the one of the
  floating-point build, one over \<open>2 ^ 12\<close>; the theorems use only that it is positive.
\<close>

definition SK_ScalarNearlyZero :: GrScalar where
  "SK_ScalarNearlyZero = 1 / 4096"

text \<open>
  The assertion that ends \<^verbatim>\<open>center_of_mass\<close> asks whether its result is a NaN, so
  this one function is modelled on what a floating-point scalar holds: a number of
  magnitude at most \<open>GR_ScalarMax\<close>, an infinity, or not-a-number. A result is exact
  while it is in that range and an infinity beyond it; an infinity times zero, the
  difference of two equal infinities and zero over zero are not-a-number. Rounding,
  underflow and the sign of zero are not modelled.
\<close>

datatype FScalar = Finite GrScalar | PosInf | NegInf | NotANumber

definition to_float :: "GrScalar \<Rightarrow> FScalar" where
  "to_float r =
     (if r > GR_ScalarMax then PosInf
      else if r < - GR_ScalarMax then NegInf
      else Finite r)"

fun f_neg :: "FScalar \<Rightarrow> FScalar" where
  "f_neg (Finite a) = Finite (- a)"
| "f_neg PosInf = NegInf"
| "f_neg NegInf = PosInf"
| "f_neg NotANumber = NotANumber"

fun f_add :: "FScalar \<Rightarrow> FScalar \<Rightarrow> FScalar" where
  "f_add NotANumber y = NotANumber"
| "f_add x NotANumber = NotANumber"
| "f_add (Finite a) (Finite b) = to_float (a + b)"
| "f_add PosInf NegInf = NotANumber"
| "f_add NegInf PosInf = NotANumber"
| "f_add PosInf y = PosInf"
| "f_add NegInf y = NegInf"
| "f_add x PosInf = PosInf"
| "f_add x NegInf = NegInf"

definition f_sub :: "FScalar \<Rightarrow> FScalar \<Rightarrow> FScalar" where
  "f_sub x y = f_add x (f_neg y)"

fun f_positive :: "FScalar \<Rightarrow> bool" where
  "f_positive (Finite a) = (0 < a)"
| "f_positive PosInf = True"
| "f_positive NegInf = False"
| "f_positive NotANumber = False"

fun f_mul :: "FScalar \<Rightarrow> FScalar \<Rightarrow> FScalar" where
  "f_mul NotANumber y = NotANumber"
| "f_mul x NotANumber = NotANumber"
| "f_mul (Finite a) (Finite b) = to_float (a * b)"
| "f_mul x y =
     (if x = Finite 0 \<or> y = Finite 0 then NotANumber
      else if f_positive x = f_positive y then PosInf
      else NegInf)"

fun f_div :: "FScalar \<Rightarrow> FScalar \<Rightarrow> FScalar" where
  "f_div NotANumber y = NotANumber"
| "f_div x NotANumber = NotANumber"
| "f_div (Finite a) (Finite b) =
     (if b = 0 then (if a = 0 then NotANumber else if 0 < a then PosInf else NegInf)
      else to_float (a / b))"
| "f_div (Finite a) y = Finite 0"
| "f_div x (Finite b) = (if f_positive x = (0 \<le> b) then PosInf else NegInf)"
| "f_div x y = NotANumber"

text \<open>\<^verbatim>\<open>SkScalarAbs(x) < e\<close>: false for an infinity and for not-a-number.\<close>

fun f_abs_less :: "FScalar \<Rightarrow> GrScalar \<Rightarrow> bool" where
  "f_abs_less (Finite a) e = (\<bar>a\<bar> < e)"
| "f_abs_less x e = False"

text \<open>
  The body of the first loop of \<^verbatim>\<open>center_of_mass\<close>, on the triple of \<^verbatim>\<open>area\<close>,
  \<^verbatim>\<open>center.fX\<close> and \<^verbatim>\<open>center.fY\<close>.
\<close>

definition com_step ::
  "Segment list \<Rightarrow> FScalar \<times> FScalar \<times> FScalar \<Rightarrow> nat \<Rightarrow> FScalar \<times> FScalar \<times> FScalar" where
  "com_step segments acc i =
     (let area = fst acc; cx = fst (snd acc); cy = snd (snd acc);
          count = length segments;
          p_i = endPt (segments ! i);
          j = (i + 1) mod count;
          p_j = endPt (segments ! j);
          t = f_sub (f_mul (to_float (fX p_i)) (to_float (fY p_j)))
                    (f_mul (to_float (fX p_j)) (to_float (fY p_i)))
      in (f_add area t,
          f_add cx (f_mul (f_add (to_float (fX p_i)) (to_float (fX p_j))) t),
          f_add cy (f_mul (f_add (to_float (fY p_i)) (to_float (fY p_j))) t)))"

text \<open>The body of the averaging loop, on the pair of \<^verbatim>\<open>avg.fX\<close> and \<^verbatim>\<open>avg.fY\<close>.\<close>

definition avg_step :: "Segment list \<Rightarrow> FScalar \<times> FScalar \<Rightarrow> nat \<Rightarrow> FScalar \<times> FScalar" where
  "avg_step segments avg i =
     (let pt = endPt (segments ! i)
      in (f_add (fst avg) (to_float (fX pt)), f_add (snd avg) (to_float (fY pt))))"

text \<open>
  The final \<^verbatim>\<open>GrAssert\<close>: it fails when a coordinate is not-a-number. An infinite
  coordinate passes it in the source, which then goes on with an infinite fan point; no
  point of this model stands for one, and the model stops there with
  \<open>InfiniteCenter\<close>.
\<close>

definition assert_not_nan :: "FScalar \<Rightarrow> FScalar \<Rightarrow> error + SkPoint" where
  "assert_not_nan x y =
     (if x = NotANumber \<or> y = NotANumber then Inl NaNCenter
      else (case x of
              Finite a \<Rightarrow> (case y of Finite b \<Rightarrow> Inr \<lparr>fX = a, fY = b\<rparr> | _ \<Rightarrow> Inl InfiniteCenter)
            | _ \<Rightarrow> Inl InfiniteCenter))"

text \<open>
  \<^verbatim>\<open>center_of_mass\<close>. For an empty array the averaging branch divides by the count
  zero: the quotient is infinite, the sums are zero, and their product is not-a-number.
\<close>

definition center_of_mass :: "Segment list \<Rightarrow> error + SkPoint" where
  "center_of_mass segments =
     (let count = length segments;
          acc = foldl (com_step segments) (Finite 0, Finite 0, Finite 0) [0..<count];
          area = fst acc; cx = fst (snd acc); cy = snd (snd acc)
      in if f_abs_less area SK_ScalarNearlyZero then
           (let avg = foldl (avg_step segments) (Finite 0, Finite 0) [0..<count];
                denom = f_div (Finite SK_Scalar1) (to_float (real count))
            in assert_not_nan (f_mul (fst avg) denom) (f_mul (snd avg) denom))
         else
           (let area3 = f_mul area (Finite 3);
                inv = f_div (Finite GR_Scalar1) area3
            in assert_not_nan (f_mul cx inv) (f_mul cy inv)))"

section \<open>Normals, bisectors and buffer sizes\<close>

datatype Direction = kCW_Direction | kCCW_Direction

text \<open>
  The inner loop of the first pass over one segment: for each of its points, the edge from
  the previous point, normalised and turned to \<open>normSide\<close>. The state is the segment and
  \<^verbatim>\<open>prevPt\<close>.
\<close>

definition norm_point :: "Side \<Rightarrow> Segment \<times> SkPoint \<Rightarrow> nat \<Rightarrow> Segment \<times> SkPoint" where
  "norm_point normSide st p =
     (let segb = fst st; prevPt = snd st;
          n = setOrthog (pt_normalize (pt_sub (fPts segb p) prevPt)) normSide
      in (segb\<lparr>fNorms := (fNorms segb)(p := n)\<rparr>, fPts segb p))"

text \<open>
  The counters \<^verbatim>\<open>vCount\<close>, \<^verbatim>\<open>iCount\<close> and the write cursors of \<^verbatim>\<open>create_vertices\<close>
  are C \<^verbatim>\<open>int\<close>s that only count upwards from zero. They are natural numbers here: a
  signed overflow has no defined behaviour in the source.
\<close>

definition norms_step ::
  "Side \<Rightarrow> Segment list \<times> nat \<times> nat \<Rightarrow> nat \<Rightarrow> Segment list \<times> nat \<times> nat" where
  "norms_step normSide st a =
     (let segments = fst st; vCount = fst (snd st); iCount = snd (snd st);
          count = length segments;
          sega = segments ! a;
          b = (a + 1) mod count;
          segb = segments ! b;
          segb' = fst (foldl (norm_point normSide) (segb, endPt sega) [0..<countPoints segb])
      in if kLine = fType segb
         then (segments[b := segb'], vCount + 5, iCount + 9)
         else (segments[b := segb'], vCount + 6, iCount + 12))"

definition mid_step :: "Segment list \<times> nat \<times> nat \<Rightarrow> nat \<Rightarrow> Segment list \<times> nat \<times> nat" where
  "mid_step st a =
     (let segments = fst st; vCount = fst (snd st); iCount = snd (snd st);
          count = length segments;
          sega = segments ! a;
          b = (a + 1) mod count;
          segb = segments ! b;
          segb' = segb\<lparr>fMid := pt_normalize (pt_add (fNorms segb 0) (endNorm sega))\<rparr>
      in (segments[b := segb'], vCount + 4, iCount + 6))"

text \<open>
  \<^verbatim>\<open>compute_vectors\<close> returns the updated segments, the fan point and the two counts.
\<close>

definition compute_vectors ::
  "Segment list \<Rightarrow> Direction \<Rightarrow> error + (Segment list \<times> SkPoint \<times> nat \<times> nat)" where
  "compute_vectors segments dir =
     (case center_of_mass segments of
        Inl e \<Rightarrow> Inl e
      | Inr fanPt \<Rightarrow>
          (let count = length segments;
               normSide = (if dir = kCCW_Direction then kRight_Side else kLeft_Side);
               st1 = foldl (norms_step normSide) (segments, 0, 0) [0..<count];
               st2 = foldl mid_step st1 [0..<count]
           in Inr (fst st2, fanPt, fst (snd st2), snd (snd st2))))"

section \<open>Decoding the path\<close>

text \<open>
  What \<^verbatim>\<open>SkPath::Iter::next\<close> hands out: the command and the points it stored in
  \<^verbatim>\<open>pts\<close> (\<^verbatim>\<open>pts[0]\<close> first). The iterator itself is not part of the sources; a path
  carries the finite list of commands it yields when it is asked to close every contour,
  and after the last one it yields \<^verbatim>\<open>kEnd_PathCmd\<close>.
\<close>

datatype GrPathCmd =
    kMove_PathCmd SkPoint
  | kLine_PathCmd SkPoint SkPoint
  | kQuadratic_PathCmd SkPoint SkPoint SkPoint
  | kCubic_PathCmd SkPoint SkPoint SkPoint SkPoint
  | kClose_PathCmd

record SkPath =
  isConvex :: bool
  isEmpty :: bool
  iter :: "GrPathCmd list"
  cheapComputeDirection :: "Direction option"

text \<open>
  The loop over the quadratics that \<^verbatim>\<open>GrPathUtils::convertCubicToQuads\<close> produced:
  three points each, of which the last two enter the segment. A read past the end of the
  array fails the bounds assertion of the array class.
\<close>

function cubic_segments :: "SkPoint list \<Rightarrow> nat \<Rightarrow> Segment list \<Rightarrow> error + Segment list" where
  "cubic_segments quads q segments =
     (if q < length quads then
        (if q + 2 < length quads
         then cubic_segments quads (q + 3)
                (segments @ [push_quad (quads ! (q + 1)) (quads ! (q + 2))])
         else Inl IndexOutOfRange)
      else Inr segments)"
  by pat_completeness auto
termination
  by (relation "measure (\<lambda>(quads, q, segments). length quads - q)") auto

declare cubic_segments.simps [simp del]

text \<open>
  The \<^verbatim>\<open>for (;;)\<close> loop of \<^verbatim>\<open>get_segments\<close> up to \<^verbatim>\<open>kEnd_PathCmd\<close>, on the
  classifier's data and the segment array. \<open>conv\<close> is the external cubic flattener,
  called with the tolerance \<^verbatim>\<open>SK_Scalar1\<close>. A close command takes the \<^verbatim>\<open>default\<close>
  branch.
\<close>

fun get_segments_loop ::
  "(SkPoint list \<Rightarrow> GrScalar \<Rightarrow> SkPoint list) \<Rightarrow> GrPathCmd list \<Rightarrow> DegenerateTestData \<Rightarrow>
   Segment list \<Rightarrow> error + (DegenerateTestData \<times> Segment list)" where
  "get_segments_loop conv [] data segments = Inr (data, segments)"
| "get_segments_loop conv (kMove_PathCmd p0 # rest) data segments =
     get_segments_loop conv rest (update_degenerate_test data p0) segments"
| "get_segments_loop conv (kLine_PathCmd p0 p1 # rest) data segments =
     get_segments_loop conv rest (update_degenerate_test data p1) (segments @ [push_line p1])"
| "get_segments_loop conv (kQuadratic_PathCmd p0 p1 p2 # rest) data segments =
     get_segments_loop conv rest
       (update_degenerate_test (update_degenerate_test data p1) p2)
       (segments @ [push_quad p1 p2])"
| "get_segments_loop conv (kCubic_PathCmd p0 p1 p2 p3 # rest) data segments =
     (let data' = update_degenerate_test
                    (update_degenerate_test (update_degenerate_test data p1) p2) p3
      in case cubic_segments (conv [p0, p1, p2, p3] SK_Scalar1) 0 segments of
           Inl e \<Rightarrow> Inl e
         | Inr segments' \<Rightarrow> get_segments_loop conv rest data' segments')"
| "get_segments_loop conv (kClose_PathCmd # rest) data segments =
     get_segments_loop conv rest data segments"

text \<open>
  \<^verbatim>\<open>get_segments\<close>. The result is the returned flag and the contents of the four
  out-parameters; \<open>fanPt\<close>, \<open>vCount\<close> and \<open>iCount\<close> are what they held before the
  call and are handed back untouched when the flag is false.
\<close>

definition get_segments ::
  "(SkPoint list \<Rightarrow> GrScalar \<Rightarrow> SkPoint list) \<Rightarrow> SkPath \<Rightarrow> Segment list \<Rightarrow> SkPoint \<Rightarrow> nat \<Rightarrow> nat \<Rightarrow>
   error + (bool \<times> Segment list \<times> SkPoint \<times> nat \<times> nat)" where
  "get_segments conv path segments fanPt vCount iCount =
     (case get_segments_loop conv (iter path) DegenerateTestData_new segments of
        Inl e \<Rightarrow> Inl e
      | Inr (degenerateData, segments') \<Rightarrow>
          if isDegenerate degenerateData
          then Inr (False, segments', fanPt, vCount, iCount)
          else (case cheapComputeDirection path of
                  None \<Rightarrow> Inl DirectionUnknown
                | Some dir \<Rightarrow>
                    (case compute_vectors segments' dir of
                       Inl e \<Rightarrow> Inl e
                     | Inr (segments'', fanPt', vCount', iCount') \<Rightarrow>
                         Inr (True, segments'', fanPt', vCount', iCount'))))"

section \<open>Emitting the mesh\<close>

record QuadVertex =
  fPos :: SkPoint
  fUV :: SkPoint
  fD0 :: GrScalar
  fD1 :: GrScalar

definition mkVertex :: "SkPoint \<Rightarrow> SkPoint \<Rightarrow> GrScalar \<Rightarrow> GrScalar \<Rightarrow> QuadVertex" where
  "mkVertex pos uv d0 d1 = \<lparr>fPos = pos, fUV = uv, fD0 = d0, fD1 = d1\<rparr>"

text \<open>
  The buffers \<^verbatim>\<open>verts\<close> and \<^verbatim>\<open>idxs\<close> are reserved memory: a position holds a value
  once it has been written. \<open>write_at buf pos xs\<close> stores \<open>xs\<close> at
  \<open>pos\<close>, \<open>pos + 1\<close>, ... as the assignments \<^verbatim>\<open>verts[v + k] = ...\<close> do.
\<close>

fun write_at :: "(nat \<rightharpoonup> 'a) \<Rightarrow> nat \<Rightarrow> 'a list \<Rightarrow> (nat \<rightharpoonup> 'a)" where
  "write_at buf pos [] = buf"
| "write_at buf pos (x # xs) = write_at (buf(pos \<mapsto> x)) (Suc pos) xs"

text \<open>An \<^verbatim>\<open>int\<close> stored into a \<^verbatim>\<open>uint16_t\<close> keeps its low 16 bits.\<close>

definition idx16 :: "nat \<Rightarrow> 16 word" where
  "idx16 n = of_nat n"

text \<open>The four vertices and six indices of the corner wedge written at cursor \<open>v\<close>.\<close>

definition wedge_verts :: "Segment \<Rightarrow> Segment \<Rightarrow> QuadVertex list" where
  "wedge_verts sega segb =
     (let pos0 = endPt sega
      in [mkVertex pos0 (mkPt 0 0) (- SK_Scalar1) (- SK_Scalar1),
          mkVertex (pt_add pos0 (endNorm sega)) (mkPt 0 (- SK_Scalar1)) (- SK_Scalar1) (- SK_Scalar1),
          mkVertex (pt_add pos0 (fMid segb)) (mkPt 0 (- SK_Scalar1)) (- SK_Scalar1) (- SK_Scalar1),
          mkVertex (pt_add pos0 (fNorms segb 0)) (mkPt 0 (- SK_Scalar1)) (- SK_Scalar1) (- SK_Scalar1)])"

definition wedge_idxs :: "nat \<Rightarrow> 16 word list" where
  "wedge_idxs v =
     [idx16 (v + 0), idx16 (v + 2), idx16 (v + 1), idx16 (v + 0), idx16 (v + 3), idx16 (v + 2)]"

text \<open>
  The five vertices and nine indices of a line's edge group. \<open>distLine\<close> is the external
  \<^verbatim>\<open>SkPoint::distanceToLineBetween\<close>.
\<close>

definition line_verts ::
  "(SkPoint \<Rightarrow> SkPoint \<Rightarrow> SkPoint \<Rightarrow> GrScalar) \<Rightarrow> SkPoint \<Rightarrow> Segment \<Rightarrow> Segment \<Rightarrow> QuadVertex list" where
  "line_verts distLine fanPt sega segb =
     (let pos1 = endPt sega;
          pos2 = fPts segb 0;
          d = distLine fanPt pos1 pos2
      in [mkVertex fanPt (mkPt 0 d) (- SK_Scalar1) (- SK_Scalar1),
          mkVertex pos1 (mkPt 0 0) (- SK_Scalar1) (- SK_Scalar1),
          mkVertex pos2 (mkPt 0 0) (- SK_Scalar1) (- SK_Scalar1),
          mkVertex (pt_add pos1 (fNorms segb 0)) (mkPt 0 (- SK_Scalar1)) (- SK_Scalar1) (- SK_Scalar1),
          mkVertex (pt_add pos2 (fNorms segb 0)) (mkPt 0 (- SK_Scalar1)) (- SK_Scalar1) (- SK_Scalar1)])"

definition line_idxs :: "nat \<Rightarrow> 16 word list" where
  "line_idxs v =
     [idx16 (v + 0), idx16 (v + 2), idx16 (v + 1),
      idx16 (v + 3), idx16 (v + 1), idx16 (v + 2),
      idx16 (v + 4), idx16 (v + 3), idx16 (v + 2)]"

text \<open>
  The six vertices and twelve indices of a quadratic's edge group. \<open>toUV qpts\<close> is the
  external map built by \<^verbatim>\<open>GrPathUtils::quadDesignSpaceToUVCoordsMatrix\<close> and applied by
  \<^verbatim>\<open>mapPointsWithStride\<close> to the six positions.
\<close>

definition quad_verts ::
  "(SkPoint list \<Rightarrow> SkPoint \<Rightarrow> SkPoint) \<Rightarrow> SkPoint \<Rightarrow> Segment \<Rightarrow> Segment \<Rightarrow> QuadVertex list" where
  "quad_verts toUV fanPt sega segb =
     (let qpts = [endPt sega, fPts segb 0, fPts segb 1];
          midVec = pt_normalize (pt_add (fNorms segb 0) (fNorms segb 1));
          c0 = dot (fNorms segb 0) (qpts ! 0);
          c1 = dot (fNorms segb 1) (qpts ! 2);
          vtx = (\<lambda>pos d0 d1. mkVertex pos (toUV qpts pos) d0 d1)
      in [vtx fanPt (- dot (fNorms segb 0) fanPt + c0) (- dot (fNorms segb 1) fanPt + c1),
          vtx (qpts ! 0) 0 (- dot (fNorms segb 1) (qpts ! 0) + c1),
          vtx (qpts ! 2) (- dot (fNorms segb 0) (qpts ! 2) + c0) 0,
          vtx (pt_add (qpts ! 0) (fNorms segb 0)) (- GR_ScalarMax / 100) (- GR_ScalarMax / 100),
          vtx (pt_add (qpts ! 2) (fNorms segb 1)) (- GR_ScalarMax / 100) (- GR_ScalarMax / 100),
          vtx (pt_add (qpts ! 1) midVec) (- GR_ScalarMax / 100) (- GR_ScalarMax / 100)])"

definition quad_idxs :: "nat \<Rightarrow> 16 word list" where
  "quad_idxs v =
     [idx16 (v + 3), idx16 (v + 1), idx16 (v + 2),
      idx16 (v + 4), idx16 (v + 3), idx16 (v + 2),
      idx16 (v + 5), idx16 (v + 3), idx16 (v + 4),
      idx16 (v + 0), idx16 (v + 2), idx16 (v + 1)]"

record MeshState =
  verts :: "nat \<rightharpoonup> QuadVertex"
  idxs :: "nat \<rightharpoonup> 16 word"
  vCur :: nat
  iCur :: nat

text \<open>One iteration of the loop of \<^verbatim>\<open>create_vertices\<close>, for the junction \<open>a\<close>.\<close>

definition cv_step ::
  "(SkPoint \<Rightarrow> SkPoint \<Rightarrow> SkPoint \<Rightarrow> GrScalar) \<Rightarrow> (SkPoint list \<Rightarrow> SkPoint \<Rightarrow> SkPoint) \<Rightarrow>
   Segment list \<Rightarrow> SkPoint \<Rightarrow> MeshState \<Rightarrow> nat \<Rightarrow> MeshState" where
  "cv_step distLine toUV segments fanPt st a =
     (let count = length segments;
          sega = segments ! a;
          b = (a + 1) mod count;
          segb = segments ! b;
          st1 = \<lparr>verts = write_at (verts st) (vCur st) (wedge_verts sega segb),
                 idxs = write_at (idxs st) (iCur st) (wedge_idxs (vCur st)),
                 vCur = vCur st + 4, iCur = iCur st + 6\<rparr>
      in if kLine = fType segb then
           \<lparr>verts = write_at (verts st1) (vCur st1) (line_verts distLine fanPt sega segb),
            idxs = write_at (idxs st1) (iCur st1) (line_idxs (vCur st1)),
            vCur = vCur st1 + 5, iCur = iCur st1 + 9\<rparr>
         else
           \<lparr>verts = write_at (verts st1) (vCur st1) (quad_verts toUV fanPt sega segb),
            idxs = write_at (idxs st1) (iCur st1) (quad_idxs (vCur st1)),
            vCur = vCur st1 + 6, iCur = iCur st1 + 12\<rparr>)"

text \<open>
  \<open>cv_run ... n\<close> is the state after the first \<open>n\<close> iterations, started on two
  buffers nothing has been written to; \<^verbatim>\<open>create_vertices\<close> runs all of them.
\<close>

definition cv_run ::
  "(SkPoint \<Rightarrow> SkPoint \<Rightarrow> SkPoint \<Rightarrow> GrScalar) \<Rightarrow> (SkPoint list \<Rightarrow> SkPoint \<Rightarrow> SkPoint) \<Rightarrow>
   Segment list \<Rightarrow> SkPoint \<Rightarrow> nat \<Rightarrow> MeshState" where
  "cv_run distLine toUV segments fanPt n =
     foldl (cv_step distLine toUV segments fanPt)
       \<lparr>verts = Map.empty, idxs = Map.empty, vCur = 0, iCur = 0\<rparr> [0..<n]"

definition create_vertices ::
  "(SkPoint \<Rightarrow> SkPoint \<Rightarrow> SkPoint \<Rightarrow> GrScalar) \<Rightarrow> (SkPoint list \<Rightarrow> SkPoint \<Rightarrow> SkPoint) \<Rightarrow>
   Segment list \<Rightarrow> SkPoint \<Rightarrow> MeshState" where
  "create_vertices distLine toUV segments fanPt =
     cv_run distLine toUV segments fanPt (length segments)"

section \<open>The renderer\<close>

datatype GrPathFill =
    kWinding_PathFill
  | kEvenOdd_PathFill
  | kInverseWinding_PathFill
  | kInverseEvenOdd_PathFill
  | kHairLine_PathFill

text \<open>
  Modelled from the spec: \<^verbatim>\<open>GrPathFill\<close> and \<^verbatim>\<open>GrIsFillInverted\<close> are declared in the
  missing \<^verbatim>\<open>GrTypes.h\<close>. The spec names the fills this renderer refuses: hairline and
  the inverted ones; the two remaining fills are the winding and the even-odd rule.
\<close>

definition GrIsFillInverted :: "GrPathFill \<Rightarrow> bool" where
  "GrIsFillInverted fill = (fill = kInverseWinding_PathFill \<or> fill = kInverseEvenOdd_PathFill)"

record Caps =
  fShaderDerivativeSupport :: bool

definition canDrawPath :: "Caps \<Rightarrow> SkPath \<Rightarrow> GrPathFill \<Rightarrow> bool \<Rightarrow> bool" where
  "canDrawPath targetCaps path fill antiAlias =
     (fShaderDerivativeSupport targetCaps \<and> antiAlias \<and>
      kHairLine_PathFill \<noteq> fill \<and> \<not> GrIsFillInverted fill \<and>
      isConvex path)"

text \<open>
  The collaborators of \<^verbatim>\<open>drawPath\<close> that are not part of the sources, over an
  abstract matrix type \<open>'m\<close>: the cubic flattener, the map to the quadratic's UV space,
  the point-to-line distance, the matrix operations, the path transformation and the
  constants of the vertex layout.
\<close>

record 'm External =
  convertCubicToQuads :: "SkPoint list \<Rightarrow> GrScalar \<Rightarrow> SkPoint list"
  quadDesignSpaceToUVCoords :: "SkPoint list \<Rightarrow> SkPoint \<Rightarrow> SkPoint"
  distanceToLineBetween :: "SkPoint \<Rightarrow> SkPoint \<Rightarrow> SkPoint \<Rightarrow> GrScalar"
  postTranslate :: "'m \<Rightarrow> GrScalar \<Rightarrow> GrScalar \<Rightarrow> 'm"
  invert :: "'m \<Rightarrow> 'm option"
  matrixI :: 'm
  transform :: "SkPath \<Rightarrow> 'm \<Rightarrow> SkPath"
  kNumStages :: nat
  StagePosAsTexCoordVertexLayoutBit :: "nat \<Rightarrow> nat"
  kEdge_VertexLayoutBit :: nat

text \<open>
  The draw target as \<^verbatim>\<open>drawPath\<close> meets it: the view matrix of its draw state, and
  whether it grants a reservation of vertex space (for a layout and a count) and of index
  space (for a count).
\<close>

record 'm GrDrawTarget =
  getViewMatrix :: 'm
  reserveVertexSpace :: "nat \<Rightarrow> nat \<Rightarrow> bool"
  reserveIndexSpace :: "nat \<Rightarrow> bool"

record 'm GrAAConvexPathRenderer =
  fPath :: SkPath
  fTranslate :: SkPoint
  fTarget :: "'m GrDrawTarget"

text \<open>
  The calls \<^verbatim>\<open>drawPath\<close> makes on the target and its draw state, in order.
  \<open>SaveState\<close> is \<^verbatim>\<open>asr.set(fTarget)\<close> and \<open>RestoreState\<close> the destructor of
  \<^verbatim>\<open>asr\<close>, which runs on every way out of the function after the declaration.
  \<open>DrawIndexed\<close> carries the counts and the two buffers as they are when the draw is
  submitted.
\<close>

datatype 'm Call =
    SaveState
  | RestoreState
  | PreConcatSamplerMatrices nat 'm
  | SetViewMatrix 'm
  | ReserveVertexSpace nat nat
  | ReserveIndexSpace nat
  | ResetVertexSource
  | SetVertexEdgeType
  | DrawIndexed nat nat "nat \<rightharpoonup> QuadVertex" "nat \<rightharpoonup> 16 word"

definition vertex_layout :: "'m External \<Rightarrow> nat \<Rightarrow> nat" where
  "vertex_layout ext stageMask =
     foldl (\<lambda>layout s. if bit stageMask s
                        then layout OR StagePosAsTexCoordVertexLayoutBit ext s
                        else layout)
       0 [0..<kNumStages ext]
     OR kEdge_VertexLayoutBit ext"

text \<open>
  \<^verbatim>\<open>drawPath\<close>: the result is the list of calls made, or the assertion that failed.
  The locals \<^verbatim>\<open>fanPt\<close>, \<^verbatim>\<open>vCount\<close> and \<^verbatim>\<open>iCount\<close> are not initialised before
  \<^verbatim>\<open>get_segments\<close> is called; they are read only after it has written them.
\<close>

definition drawPath :: "'m External \<Rightarrow> 'm GrAAConvexPathRenderer \<Rightarrow> nat \<Rightarrow> error + 'm Call list" where
  "drawPath ext r stageMask =
     (if \<not> isConvex (fPath r) then Inl NotConvex
      else if isEmpty (fPath r) then Inr []
      else
        (let target = fTarget r;
             vm = postTranslate ext (getViewMatrix target) (fX (fTranslate r)) (fY (fTranslate r));
             calls1 = [SaveState];
             calls2 = (case invert ext vm of
                         Some ivm \<Rightarrow> calls1 @ [PreConcatSamplerMatrices stageMask ivm]
                       | None \<Rightarrow> calls1);
             calls3 = calls2 @ [SetViewMatrix (matrixI ext)];
             path = transform ext (fPath r) vm;
             layout = vertex_layout ext stageMask
         in case get_segments (convertCubicToQuads ext) path [] (mkPt 0 0) 0 0 of
              Inl e \<Rightarrow> Inl e
            | Inr (ok, segments, fanPt, vCount, iCount) \<Rightarrow>
                if \<not> ok then Inr (calls3 @ [RestoreState])
                else if \<not> reserveVertexSpace target layout vCount then
                  Inr (calls3 @ [ReserveVertexSpace layout vCount, RestoreState])
                else if \<not> reserveIndexSpace target iCount then
                  Inr (calls3 @ [ReserveVertexSpace layout vCount, ReserveIndexSpace iCount,
                                 ResetVertexSource, RestoreState])
                else
                  (let mesh = create_vertices (distanceToLineBetween ext)
                                (quadDesignSpaceToUVCoords ext) segments fanPt
                   in Inr (calls3 @ [ReserveVertexSpace layout vCount, ReserveIndexSpace iCount,
                                     SetVertexEdgeType,
                                     DrawIndexed vCount iCount (verts mesh) (idxs mesh),
                                     RestoreState]))))"

text \<open>The calls that reserve buffer space, and the call that submits a draw.\<close>

fun is_reservation :: "'m Call \<Rightarrow> bool" where
  "is_reservation (ReserveVertexSpace l n) = True"
| "is_reservation (ReserveIndexSpace n) = True"
| "is_reservation c = False"

fun is_draw :: "'m Call \<Rightarrow> bool" where
  "is_draw (DrawIndexed vc ic vb ib) = True"
| "is_draw c = False"

section \<open>The spec's notions\<close>

text \<open>
  The definitions of this section are not taken from the code. They say in the spec's
  words what the code is compared with: the shoelace sum over consecutive, wrapping
  vertex pairs, the signed area (half of it), the area-weighted centroid and the
  unweighted mean of a polygon given by its vertices.
\<close>

definition cross_at :: "SkPoint list \<Rightarrow> nat \<Rightarrow> GrScalar" where
  "cross_at P i =
     fX (P ! i) * fY (P ! ((i + 1) mod length P)) - fX (P ! ((i + 1) mod length P)) * fY (P ! i)"

definition shoelace_sum :: "SkPoint list \<Rightarrow> GrScalar" where
  "shoelace_sum P = (\<Sum>i\<leftarrow>[0..<length P]. cross_at P i)"

definition signed_area :: "SkPoint list \<Rightarrow> GrScalar" where
  "signed_area P = shoelace_sum P / 2"

definition polygon_centroid :: "SkPoint list \<Rightarrow> SkPoint" where
  "polygon_centroid P =
     \<lparr>fX = (\<Sum>i\<leftarrow>[0..<length P]. (fX (P ! i) + fX (P ! ((i + 1) mod length P))) * cross_at P i)
             / (6 * signed_area P),
      fY = (\<Sum>i\<leftarrow>[0..<length P]. (fY (P ! i) + fY (P ! ((i + 1) mod length P))) * cross_at P i)
             / (6 * signed_area P)\<rparr>"

definition vertex_mean :: "SkPoint list \<Rightarrow> SkPoint" where
  "vertex_mean P =
     \<lparr>fX = (\<Sum>p\<leftarrow>P. fX p) / real (length P), fY = (\<Sum>p\<leftarrow>P. fY p) / real (length P)\<rparr>"

text \<open>
  A range in which no intermediate value of \<open>center_of_mass\<close> leaves the finite numbers:
  at most \<open>2 ^ 25\<close> segments, with end points whose coordinates are at most \<open>2 ^ 25\<close>
  in absolute value.
\<close>

definition coord_bound :: GrScalar where
  "coord_bound = 33554432"

definition in_range :: "Segment list \<Rightarrow> bool" where
  "in_range segments \<longleftrightarrow>
     length segments \<le> 33554432 \<and>
     list_all (\<lambda>s. \<bar>fX (endPt s)\<bar> \<le> coord_bound \<and> \<bar>fY (endPt s)\<bar> \<le> coord_bound) segments"

text \<open>
  Two segments have the same shape when they agree in what the decoder stored: the type
  and the points. \<open>vsize\<close> and \<open>isize\<close> are the numbers of vertices and indices of a
  segment's edge group.
\<close>

definition same_shape :: "Segment \<Rightarrow> Segment \<Rightarrow> bool" where
  "same_shape s t \<longleftrightarrow> fType s = fType t \<and> fPts s = fPts t"

definition vsize :: "Segment \<Rightarrow> nat" where
  "vsize s = (if kLine = fType s then 5 else 6)"

definition isize :: "Segment \<Rightarrow> nat" where
  "isize s = (if kLine = fType s then 9 else 12)"


text \<open>
  The unit square of the spec's scenario, as the closing iterator hands it out: the move,
  three lines, the closing line back to the start, and the close command. The decoder
  turns it into four line segments. The second polygon has three collinear vertices.
\<close>

definition unit_square :: SkPath where
  "unit_square =
     \<lparr>isConvex = True, isEmpty = False,
      iter = [kMove_PathCmd (mkPt 0 0),
              kLine_PathCmd (mkPt 0 0) (mkPt 1 0),
              kLine_PathCmd (mkPt 1 0) (mkPt 1 1),
              kLine_PathCmd (mkPt 1 1) (mkPt 0 1),
              kLine_PathCmd (mkPt 0 1) (mkPt 0 0),
              kClose_PathCmd],
      cheapComputeDirection = Some kCCW_Direction\<rparr>"

definition unit_square_segments :: "Segment list" where
  "unit_square_segments =
     [push_line (mkPt 1 0), push_line (mkPt 1 1), push_line (mkPt 0 1), push_line (mkPt 0 0)]"






text \<open>
  The vertices and indices of the edge group of \<open>segb\<close>, whichever its type, as one
  iteration of \<^verbatim>\<open>create_vertices\<close> writes them after the wedge.
\<close>

definition group_verts ::
  "(SkPoint \<Rightarrow> SkPoint \<Rightarrow> SkPoint \<Rightarrow> GrScalar) \<Rightarrow> (SkPoint list \<Rightarrow> SkPoint \<Rightarrow> SkPoint) \<Rightarrow>
   SkPoint \<Rightarrow> Segment \<Rightarrow> Segment \<Rightarrow> QuadVertex list" where
  "group_verts distLine toUV fanPt sega segb =
     (if kLine = fType segb then line_verts distLine fanPt sega segb
      else quad_verts toUV fanPt sega segb)"

definition group_idxs :: "Segment \<Rightarrow> nat \<Rightarrow> 16 word list" where
  "group_idxs segb v = (if kLine = fType segb then line_idxs v else quad_idxs v)"

text \<open>
  A closed outline of one quadratic and its closing line: the quadratic from (0,0) over
  the control point (1,0) to (1,1), and the line back to (0,0).
\<close>

definition quad_corner_segments :: "Segment list" where
  "quad_corner_segments = [push_quad (mkPt 1 0) (mkPt 1 1), push_line (mkPt 0 0)]"

text \<open>
  The points \<^verbatim>\<open>get_segments\<close> hands to the classifier, in order: the point of a move,
  the end point of a line, the control point and the end point of a quadratic, and the
  three points after the start of a cubic.
\<close>

fun fed_points :: "GrPathCmd list \<Rightarrow> SkPoint list" where
  "fed_points [] = []"
| "fed_points (kMove_PathCmd p0 # rest) = p0 # fed_points rest"
| "fed_points (kLine_PathCmd p0 p1 # rest) = p1 # fed_points rest"
| "fed_points (kQuadratic_PathCmd p0 p1 p2 # rest) = p1 # p2 # fed_points rest"
| "fed_points (kCubic_PathCmd p0 p1 p2 p3 # rest) = p1 # p2 # p3 # fed_points rest"
| "fed_points (kClose_PathCmd # rest) = fed_points rest"

text \<open>
  What the classifier accepts as thin, said without the classifier: a point is near the
  anchor when its squared distance to it is at most the tolerance squared; the line of an
  anchor \<open>a\<close> and a point \<open>q\<close> has the unit normal \<open>line_normal a q\<close> and runs
  through \<open>a\<close>; a point is near that line when the absolute value of its signed
  distance is at most the tolerance. A sequence of points is thin when, after the first
  point (the anchor) and the points near it that follow, either nothing is left or all
  points after the first far one are near the line of the anchor and that far one.
\<close>

definition near_anchor :: "SkPoint \<Rightarrow> SkPoint \<Rightarrow> bool" where
  "near_anchor a = (\<lambda>p. distanceToSqd p a \<le> TOL * TOL)"

definition line_normal :: "SkPoint \<Rightarrow> SkPoint \<Rightarrow> SkPoint" where
  "line_normal a q = setOrthog (pt_normalize (pt_sub q a)) kLeft_Side"

definition near_line :: "SkPoint \<Rightarrow> SkPoint \<Rightarrow> SkPoint \<Rightarrow> bool" where
  "near_line a q = (\<lambda>p. \<bar>dot (line_normal a q) p + - dot (line_normal a q) a\<bar> \<le> TOL)"

fun thin :: "SkPoint list \<Rightarrow> bool" where
  "thin [] = True"
| "thin (a # ps) =
     (case dropWhile (near_anchor a) ps of
        [] \<Rightarrow> True
      | q # post \<Rightarrow> list_all (near_line a q) post)"

text \<open>
  The path \<^verbatim>\<open>drawPath\<close> decodes (the renderer's path under the translated view
  matrix), and the calls on the draw state that precede the decoding.
\<close>

definition device_path :: "'m External \<Rightarrow> 'm GrAAConvexPathRenderer \<Rightarrow> SkPath" where
  "device_path ext r =
     transform ext (fPath r)
       (postTranslate ext (getViewMatrix (fTarget r)) (fX (fTranslate r)) (fY (fTranslate r)))"

definition state_calls :: "'m External \<Rightarrow> 'm GrAAConvexPathRenderer \<Rightarrow> nat \<Rightarrow> 'm Call list" where
  "state_calls ext r stageMask =
     [SaveState] @
     (case invert ext (postTranslate ext (getViewMatrix (fTarget r))
                         (fX (fTranslate r)) (fY (fTranslate r))) of
        Some ivm \<Rightarrow> [PreConcatSamplerMatrices stageMask ivm]
      | None \<Rightarrow> []) @
     [SetViewMatrix (matrixI ext)]"

text \<open>
  A collaborator to run \<^verbatim>\<open>drawPath\<close> on concrete paths: the unit type for matrices,
  a path transformation that changes nothing, a flattener that answers one quadratic for a
  cubic, and a target whose two reservations are granted or refused as told.
\<close>

definition plain_External :: "unit External" where
  "plain_External =
     \<lparr>convertCubicToQuads = (\<lambda>pts tol. [pts ! 0, pts ! 1, pts ! 3]),
      quadDesignSpaceToUVCoords = (\<lambda>qpts p. p),
      distanceToLineBetween = (\<lambda>p a b. 0),
      postTranslate = (\<lambda>m x y. m),
      invert = (\<lambda>m. Some m),
      matrixI = (),
      transform = (\<lambda>path m. path),
      kNumStages = 3,
      StagePosAsTexCoordVertexLayoutBit = (\<lambda>s. 2 ^ s),
      kEdge_VertexLayoutBit = 256\<rparr>"

definition plain_renderer :: "SkPath \<Rightarrow> bool \<Rightarrow> bool \<Rightarrow> unit GrAAConvexPathRenderer" where
  "plain_renderer path vertsGranted idxsGranted =
     \<lparr>fPath = path, fTranslate = mkPt 0 0,
      fTarget = \<lparr>getViewMatrix = (), reserveVertexSpace = (\<lambda>layout n. vertsGranted),
                 reserveIndexSpace = (\<lambda>n. idxsGranted)\<rparr>\<rparr>"

text \<open>
  Three paths: the three collinear points (0,0), (1,0), (2,0) of the spec's scenario; a
  triangle with the corners (0, 1/20), (0, -1/20) and (1, 0), all of them within 1/20 of
  the x-axis; and an outline of one cubic and its closing line.
\<close>

definition collinear_path :: SkPath where
  "collinear_path =
     \<lparr>isConvex = True, isEmpty = False,
      iter = [kMove_PathCmd (mkPt 0 0),
              kLine_PathCmd (mkPt 0 0) (mkPt 1 0),
              kLine_PathCmd (mkPt 1 0) (mkPt 2 0),
              kLine_PathCmd (mkPt 2 0) (mkPt 0 0),
              kClose_PathCmd],
      cheapComputeDirection = None\<rparr>"

definition thin_triangle :: SkPath where
  "thin_triangle =
     \<lparr>isConvex = True, isEmpty = False,
      iter = [kMove_PathCmd (mkPt 0 (1 / 20)),
              kLine_PathCmd (mkPt 0 (1 / 20)) (mkPt 0 (- (1 / 20))),
              kLine_PathCmd (mkPt 0 (- (1 / 20))) (mkPt 1 0),
              kLine_PathCmd (mkPt 1 0) (mkPt 0 (1 / 20)),
              kClose_PathCmd],
      cheapComputeDirection = Some kCW_Direction\<rparr>"

definition cubic_cmds :: "GrPathCmd list" where
  "cubic_cmds =
     [kMove_PathCmd (mkPt 0 0),
      kCubic_PathCmd (mkPt 0 0) (mkPt 1 0) (mkPt 1 1) (mkPt 0 1),
      kLine_PathCmd (mkPt 0 1) (mkPt 0 0),
      kClose_PathCmd]"

section \<open>Facts about vectors\<close>

lemma lengthSqd_nonneg: "0 \<le> lengthSqd a"
  by (simp add: lengthSqd_def dot_def)

lemma unit_quotient:
  fixes l x y :: real
  assumes "l \<noteq> 0" and "l * l = x * x + y * y"
  shows "x / l * (x / l) + y / l * (y / l) = 1"
proof -
  have "x / l * (x / l) + y / l * (y / l) = (x * x + y * y) / (l * l)"
    by (simp add: add_divide_distrib)
  also have "\<dots> = (l * l) / (l * l)"
    by (simp only: assms(2))
  also have "\<dots> = 1"
    using assms(1) by simp
  finally show ?thesis .
qed

lemma lengthSqd_pt_normalize:
  assumes "lengthSqd a \<noteq> 0"
  shows "lengthSqd (pt_normalize a) = 1"
proof -
  have pos: "0 < lengthSqd a"
    using assms lengthSqd_nonneg [of a] by linarith
  then have ne: "sqrt (lengthSqd a) \<noteq> 0" by simp
  have sq: "sqrt (lengthSqd a) * sqrt (lengthSqd a) = fX a * fX a + fY a * fY a"
    using pos by (simp add: lengthSqd_def dot_def)
  show ?thesis
    using ne unit_quotient [OF ne sq]
    by (simp add: pt_normalize_def Let_def) (simp add: lengthSqd_def dot_def)
qed

lemma lengthSqd_setOrthog: "lengthSqd (setOrthog a s) = lengthSqd a"
  by (simp add: setOrthog_def lengthSqd_def dot_def)

lemma dot_setOrthog_normalize_sub:
  "dot (setOrthog (pt_normalize (pt_sub p q)) s) p = dot (setOrthog (pt_normalize (pt_sub p q)) s) q"
  by (simp add: setOrthog_def pt_normalize_def Let_def pt_sub_def dot_def field_simps)

lemma update_kInitial:
  "fStage d = kInitial \<Longrightarrow> update_degenerate_test d pt = d\<lparr>fStage := kPoint, fFirstPoint := pt\<rparr>"
  by (simp add: update_degenerate_test_def)

lemma update_kNonDegenerate:
  "fStage d = kNonDegenerate \<Longrightarrow> update_degenerate_test d pt = d"
  by (simp add: update_degenerate_test_def)

lemma foldl_update_kNonDegenerate:
  "fStage d = kNonDegenerate \<Longrightarrow> foldl update_degenerate_test d pts = d"
  by (induction pts) (simp_all add: update_kNonDegenerate)


lemma TOL_SQD_pos: "0 < TOL_SQD"
  by (simp add: TOL_SQD_def TOL_def)

lemma update_kPoint_far:
  assumes "fStage d = kPoint" and "distanceToSqd pt (fFirstPoint d) > TOL_SQD"
  shows "update_degenerate_test d pt =
           d\<lparr>fStage := kLine_Stage,
              fLineNormal := setOrthog (pt_normalize (pt_sub pt (fFirstPoint d))) kLeft_Side,
              fLineC := - dot (setOrthog (pt_normalize (pt_sub pt (fFirstPoint d))) kLeft_Side)
                            (fFirstPoint d)\<rparr>"
  using assms by (simp add: update_degenerate_test_def Let_def)

lemma update_kPoint_near:
  assumes "fStage d = kPoint" and "\<not> distanceToSqd pt (fFirstPoint d) > TOL_SQD"
  shows "update_degenerate_test d pt = d"
  using assms by (simp add: update_degenerate_test_def)

lemma update_kLine_Stage:
  assumes "fStage d = kLine_Stage"
  shows "update_degenerate_test d pt =
           (if \<bar>dot (fLineNormal d) pt + fLineC d\<bar> > TOL then d\<lparr>fStage := kNonDegenerate\<rparr> else d)"
  using assms by (simp add: update_degenerate_test_def)

lemma line_equation:
  assumes "distanceToSqd pt a > TOL_SQD"
  defines "n \<equiv> setOrthog (pt_normalize (pt_sub pt a)) kLeft_Side"
  shows "lengthSqd n = 1" and "dot n a + - dot n a = 0" and "dot n pt + - dot n a = 0"
proof -
  have "lengthSqd (pt_sub pt a) \<noteq> 0"
    using assms(1) TOL_SQD_pos by (simp add: distanceToSqd_def)
  then show "lengthSqd n = 1"
    by (simp add: n_def lengthSqd_setOrthog lengthSqd_pt_normalize)
  show "dot n a + - dot n a = 0" by simp
  show "dot n pt + - dot n a = 0"
    by (simp add: n_def dot_setOrthog_normalize_sub)
qed

section \<open>Evaluation on concrete inputs\<close>

lemmas eval_pt = mkPt_def pt_add_def pt_sub_def pt_neg_def dot_def pt_scale_def lengthSqd_def
  distanceToSqd_def pt_normalize_def setOrthog_def Let_def

lemma feed0: "update_degenerate_test DegenerateTestData_new (mkPt 0 0) =
   \<lparr>fStage = kPoint, fFirstPoint = mkPt 0 0, fLineNormal = mkPt 0 0, fLineC = 0\<rparr>"
  by (simp add: update_degenerate_test_def DegenerateTestData_new_def)

lemma feed1: "update_degenerate_test
     \<lparr>fStage = kPoint, fFirstPoint = mkPt 0 0, fLineNormal = mkPt 0 0, fLineC = 0\<rparr> (mkPt 1 0) =
   \<lparr>fStage = kLine_Stage, fFirstPoint = mkPt 0 0, fLineNormal = mkPt 0 (- 1), fLineC = 0\<rparr>"
  by (simp add: update_degenerate_test_def TOL_SQD_def TOL_def eval_pt)

lemma feed2: "update_degenerate_test
   \<lparr>fStage = kLine_Stage, fFirstPoint = mkPt 0 0, fLineNormal = mkPt 0 (- 1), fLineC = 0\<rparr> (mkPt 0 1) =
   \<lparr>fStage = kNonDegenerate, fFirstPoint = mkPt 0 0, fLineNormal = mkPt 0 (- 1), fLineC = 0\<rparr>"
  by (simp add: update_degenerate_test_def TOL_SQD_def TOL_def eval_pt)

section \<open>The classifier as a state machine\<close>

text \<open>
  Claim C3, as amended. The classifier is a machine over the four stages with the
  tolerance 1/16. In \<open>kInitial\<close> every fed point becomes the anchor and the stage becomes
  \<open>kPoint\<close>. In \<open>kPoint\<close> the stage becomes \<open>kLine_Stage\<close> exactly when the squared
  distance of the point to the anchor exceeds the tolerance squared; the line equation
  then stored has a normal of length one and holds at the anchor and at the point;
  otherwise nothing changes. In \<open>kLine_Stage\<close> the stage becomes \<open>kNonDegenerate\<close>
  exactly when the absolute value of the signed distance of the point from the stored
  line exceeds the tolerance, and nothing but the stage changes. \<open>kNonDegenerate\<close> is
  absorbing: no sequence of points changes the data any more.
\<close>

theorem update_degenerate_test_machine:
  "TOL = 1 / 16 \<and>
   (fStage d = kInitial \<longrightarrow>
      update_degenerate_test d pt = d\<lparr>fStage := kPoint, fFirstPoint := pt\<rparr>) \<and>
   (fStage d = kPoint \<longrightarrow>
      (fStage (update_degenerate_test d pt) = kLine_Stage
         \<longleftrightarrow> distanceToSqd pt (fFirstPoint d) > TOL * TOL) \<and>
      (fStage (update_degenerate_test d pt) = kLine_Stage \<longrightarrow>
         fFirstPoint (update_degenerate_test d pt) = fFirstPoint d \<and>
         lengthSqd (fLineNormal (update_degenerate_test d pt)) = 1 \<and>
         dot (fLineNormal (update_degenerate_test d pt)) (fFirstPoint d)
           + fLineC (update_degenerate_test d pt) = 0 \<and>
         dot (fLineNormal (update_degenerate_test d pt)) pt
           + fLineC (update_degenerate_test d pt) = 0) \<and>
      (fStage (update_degenerate_test d pt) \<noteq> kLine_Stage \<longrightarrow> update_degenerate_test d pt = d)) \<and>
   (fStage d = kLine_Stage \<longrightarrow>
      (fStage (update_degenerate_test d pt) = kNonDegenerate
         \<longleftrightarrow> \<bar>dot (fLineNormal d) pt + fLineC d\<bar> > TOL) \<and>
      (fStage (update_degenerate_test d pt) \<noteq> kNonDegenerate \<longrightarrow> update_degenerate_test d pt = d) \<and>
      update_degenerate_test d pt = d\<lparr>fStage := fStage (update_degenerate_test d pt)\<rparr>) \<and>
   (fStage d = kNonDegenerate \<longrightarrow> foldl update_degenerate_test d pts = d)"
proof (intro conjI impI)
  show "TOL = 1 / 16" by (simp add: TOL_def)
next
  assume "fStage d = kInitial"
  then show "update_degenerate_test d pt = d\<lparr>fStage := kPoint, fFirstPoint := pt\<rparr>"
    by (rule update_kInitial)
next
  assume st: "fStage d = kPoint"
  show "fStage (update_degenerate_test d pt) = kLine_Stage
          \<longleftrightarrow> distanceToSqd pt (fFirstPoint d) > TOL * TOL"
    using st update_kPoint_far [of d pt] update_kPoint_near [of d pt]
    by (cases "distanceToSqd pt (fFirstPoint d) > TOL_SQD") (simp_all add: TOL_SQD_def)
next
  assume st: "fStage d = kPoint"
    and ln: "fStage (update_degenerate_test d pt) = kLine_Stage"
  have far: "distanceToSqd pt (fFirstPoint d) > TOL_SQD"
    using st ln update_kPoint_near [of d pt] by (cases "distanceToSqd pt (fFirstPoint d) > TOL_SQD") simp_all
  note eq = update_kPoint_far [OF st far]
  show "fFirstPoint (update_degenerate_test d pt) = fFirstPoint d"
    by (simp add: eq)
  show "lengthSqd (fLineNormal (update_degenerate_test d pt)) = 1"
    using line_equation(1) [OF far] by (simp add: eq)
  show "dot (fLineNormal (update_degenerate_test d pt)) (fFirstPoint d)
          + fLineC (update_degenerate_test d pt) = 0"
    by (simp add: eq)
  show "dot (fLineNormal (update_degenerate_test d pt)) pt
          + fLineC (update_degenerate_test d pt) = 0"
    using line_equation(3) [OF far] by (simp add: eq)
next
  assume st: "fStage d = kPoint"
    and ln: "fStage (update_degenerate_test d pt) \<noteq> kLine_Stage"
  show "update_degenerate_test d pt = d"
    using st ln update_kPoint_far [of d pt] update_kPoint_near [of d pt]
    by (cases "distanceToSqd pt (fFirstPoint d) > TOL_SQD") simp_all
next
  assume st: "fStage d = kLine_Stage"
  show "fStage (update_degenerate_test d pt) = kNonDegenerate
          \<longleftrightarrow> \<bar>dot (fLineNormal d) pt + fLineC d\<bar> > TOL"
    using st by (simp add: update_kLine_Stage)
next
  assume st: "fStage d = kLine_Stage"
    and nd: "fStage (update_degenerate_test d pt) \<noteq> kNonDegenerate"
  show "update_degenerate_test d pt = d"
    using st nd by (simp add: update_kLine_Stage split: if_splits)
next
  assume st: "fStage d = kLine_Stage"
  show "update_degenerate_test d pt = d\<lparr>fStage := fStage (update_degenerate_test d pt)\<rparr>"
    using st by (simp add: update_kLine_Stage)
next
  assume "fStage d = kNonDegenerate"
  then show "foldl update_degenerate_test d pts = d"
    by (rule foldl_update_kNonDegenerate)
qed

theorem update_degenerate_test_machine_witness:
  "fStage DegenerateTestData_new = kInitial \<and>
   fStage (update_degenerate_test DegenerateTestData_new (mkPt 0 0)) = kPoint \<and>
   fStage \<lparr>fStage = kPoint, fFirstPoint = mkPt 0 0, fLineNormal = mkPt 0 0, fLineC = 0\<rparr> = kPoint \<and>
   lengthSqd (fLineNormal (update_degenerate_test
       \<lparr>fStage = kPoint, fFirstPoint = mkPt 0 0, fLineNormal = mkPt 0 0, fLineC = 0\<rparr> (mkPt 1 0))) = 1 \<and>
   fStage \<lparr>fStage = kLine_Stage, fFirstPoint = mkPt 0 0, fLineNormal = mkPt 0 (- 1), fLineC = 0\<rparr>
     = kLine_Stage \<and>
   fStage (update_degenerate_test
       \<lparr>fStage = kLine_Stage, fFirstPoint = mkPt 0 0, fLineNormal = mkPt 0 (- 1), fLineC = 0\<rparr>
       (mkPt 0 1)) = kNonDegenerate \<and>
   fStage \<lparr>fStage = kNonDegenerate, fFirstPoint = mkPt 0 0, fLineNormal = mkPt 0 (- 1), fLineC = 0\<rparr>
     = kNonDegenerate \<and>
   foldl update_degenerate_test
     \<lparr>fStage = kNonDegenerate, fFirstPoint = mkPt 0 0, fLineNormal = mkPt 0 (- 1), fLineC = 0\<rparr>
     [mkPt 5 5, mkPt 7 (- 3)]
     = \<lparr>fStage = kNonDegenerate, fFirstPoint = mkPt 0 0, fLineNormal = mkPt 0 (- 1), fLineC = 0\<rparr>"
  using
    update_degenerate_test_machine [where d = DegenerateTestData_new and pt = "mkPt 0 0"]
    update_degenerate_test_machine
      [where d = "\<lparr>fStage = kPoint, fFirstPoint = mkPt 0 0, fLineNormal = mkPt 0 0, fLineC = 0\<rparr>"
         and pt = "mkPt 1 0"]
    update_degenerate_test_machine
      [where d = "\<lparr>fStage = kLine_Stage, fFirstPoint = mkPt 0 0, fLineNormal = mkPt 0 (- 1),
                    fLineC = 0\<rparr>"
         and pt = "mkPt 0 1"]
    update_degenerate_test_machine
      [where d = "\<lparr>fStage = kNonDegenerate, fFirstPoint = mkPt 0 0, fLineNormal = mkPt 0 (- 1),
                    fLineC = 0\<rparr>"
         and pts = "[mkPt 5 5, mkPt 7 (- 3)]"]
  by (simp add: feed1 feed2 DegenerateTestData_new_def)

text \<open>
  The claim as it was stated compares the signed distance itself with the tolerance. The
  anchor (0,0) and the point (1,0) give the line with normal (0,-1); the point (0,1) has
  the signed distance -1 from it, which does not exceed 1/16, and the stage still becomes
  \<open>kNonDegenerate\<close>.
\<close>

theorem update_degenerate_test_signed_counterexample:
  "fStage (update_degenerate_test (update_degenerate_test DegenerateTestData_new (mkPt 0 0)) (mkPt 1 0))
     = kLine_Stage \<and>
   \<not> (dot (fLineNormal (update_degenerate_test
                          (update_degenerate_test DegenerateTestData_new (mkPt 0 0)) (mkPt 1 0)))
            (mkPt 0 1)
        + fLineC (update_degenerate_test
                    (update_degenerate_test DegenerateTestData_new (mkPt 0 0)) (mkPt 1 0))
        > TOL) \<and>
   fStage (update_degenerate_test
             (update_degenerate_test
                (update_degenerate_test DegenerateTestData_new (mkPt 0 0)) (mkPt 1 0))
             (mkPt 0 1))
     = kNonDegenerate"
  by (simp add: feed0 feed1 feed2) (simp add: TOL_def eval_pt)

section \<open>The applicability predicate\<close>

text \<open>
  Claim C5. \<open>canDrawPath\<close> is true if and only if the target reports shader-derivative
  support, anti-aliasing is requested, the fill is not hairline, the fill is not inverted,
  and the path is convex.
\<close>

theorem canDrawPath_iff:
  "canDrawPath targetCaps path fill antiAlias \<longleftrightarrow>
     (fShaderDerivativeSupport targetCaps \<and> antiAlias \<and> fill \<noteq> kHairLine_PathFill \<and>
      \<not> GrIsFillInverted fill \<and> isConvex path)"
  by (auto simp add: canDrawPath_def)

section \<open>The fan point in closed form\<close>

lemma to_float_Finite: "\<bar>r\<bar> \<le> GR_ScalarMax \<Longrightarrow> to_float r = Finite r"
  by (auto simp add: to_float_def)

lemma f_add_Finite:
  "\<bar>a + b\<bar> \<le> GR_ScalarMax \<Longrightarrow> f_add (Finite a) (Finite b) = Finite (a + b)"
  by (simp add: to_float_Finite)

lemma f_sub_Finite:
  "\<bar>a - b\<bar> \<le> GR_ScalarMax \<Longrightarrow> f_sub (Finite a) (Finite b) = Finite (a - b)"
  by (simp add: f_sub_def to_float_Finite)

lemma f_mul_Finite:
  "\<bar>a * b\<bar> \<le> GR_ScalarMax \<Longrightarrow> f_mul (Finite a) (Finite b) = Finite (a * b)"
  by (simp add: to_float_Finite)

lemma f_div_Finite:
  "b \<noteq> 0 \<Longrightarrow> \<bar>a / b\<bar> \<le> GR_ScalarMax \<Longrightarrow> f_div (Finite a) (Finite b) = Finite (a / b)"
  by (simp add: to_float_Finite)

lemma abs_mult_bound:
  fixes a b :: real
  assumes "\<bar>a\<bar> \<le> A" and "\<bar>b\<bar> \<le> B"
  shows "\<bar>a * b\<bar> \<le> A * B"
proof -
  have "0 \<le> A" using assms(1) by simp
  have "\<bar>a * b\<bar> = \<bar>a\<bar> * \<bar>b\<bar>" by (rule abs_mult)
  also have "\<dots> \<le> A * B"
    using assms \<open>0 \<le> A\<close> by (intro mult_mono) simp_all
  finally show ?thesis .
qed

lemma sum_list_abs_bound:
  fixes f :: "nat \<Rightarrow> real"
  assumes "\<forall>i<k. \<bar>f i\<bar> \<le> c"
  shows "\<bar>\<Sum>i\<leftarrow>[0..<k]. f i\<bar> \<le> real k * c"
  using assms
proof (induction k)
  case 0
  show ?case by simp
next
  case (Suc k)
  have "\<bar>\<Sum>i\<leftarrow>[0..<k]. f i\<bar> \<le> real k * c" using Suc by simp
  moreover have "\<bar>f k\<bar> \<le> c" using Suc.prems by simp
  ultimately show ?case by (simp add: algebra_simps)
qed

lemma in_range_nth:
  assumes "in_range segments" and "i < length segments"
  shows "\<bar>fX (endPt (segments ! i))\<bar> \<le> coord_bound" and "\<bar>fY (endPt (segments ! i))\<bar> \<le> coord_bound"
  using assms by (simp_all add: in_range_def list_all_length)

lemma range_numbers:
  "coord_bound \<le> GR_ScalarMax"
  "coord_bound * coord_bound \<le> GR_ScalarMax"
  "2 * (coord_bound * coord_bound) \<le> GR_ScalarMax"
  "2 * coord_bound \<le> GR_ScalarMax"
  "2 * coord_bound * (2 * (coord_bound * coord_bound)) \<le> GR_ScalarMax"
  "33554432 * coord_bound \<le> GR_ScalarMax"
  "33554432 * (2 * (coord_bound * coord_bound)) \<le> GR_ScalarMax"
  "3 * (33554432 * (2 * (coord_bound * coord_bound))) \<le> GR_ScalarMax"
  "33554432 * (2 * coord_bound * (2 * (coord_bound * coord_bound))) \<le> GR_ScalarMax"
  "33554432 * (2 * coord_bound * (2 * (coord_bound * coord_bound))) * (4096 / 3) \<le> GR_ScalarMax"
  "0 \<le> coord_bound"
  by (simp_all add: coord_bound_def GR_ScalarMax_def)


lemma cross_at_bounds:
  assumes "in_range segments" and "i < length segments"
  shows "\<bar>cross_at (map endPt segments) i\<bar> \<le> 2 * (coord_bound * coord_bound)"
    and "\<bar>(fX (map endPt segments ! i)
           + fX (map endPt segments ! ((i + 1) mod length segments)))
          * cross_at (map endPt segments) i\<bar>
         \<le> 2 * coord_bound * (2 * (coord_bound * coord_bound))"
    and "\<bar>(fY (map endPt segments ! i)
           + fY (map endPt segments ! ((i + 1) mod length segments)))
          * cross_at (map endPt segments) i\<bar>
         \<le> 2 * coord_bound * (2 * (coord_bound * coord_bound))"
proof -
  define n where "n = length segments"
  have ne: "segments \<noteq> []" using assms(2) by (cases segments) simp_all
  have npos: "0 < n" using ne by (simp add: n_def)
  have j: "(i + 1) mod n < n" using npos by (rule mod_less_divisor)
  define xi where "xi = fX (endPt (segments ! i))"
  define yi where "yi = fY (endPt (segments ! i))"
  define xj where "xj = fX (endPt (segments ! ((i + 1) mod n)))"
  define yj where "yj = fY (endPt (segments ! ((i + 1) mod n)))"
  have b: "\<bar>xi\<bar> \<le> coord_bound" "\<bar>yi\<bar> \<le> coord_bound" "\<bar>xj\<bar> \<le> coord_bound" "\<bar>yj\<bar> \<le> coord_bound"
    using in_range_nth [OF assms(1) assms(2)] in_range_nth [OF assms(1), of "(i + 1) mod n"] j
    by (simp_all add: xi_def yi_def xj_def yj_def n_def)
  have c: "cross_at (map endPt segments) i = xi * yj - xj * yi"
    using assms(2) j ne
    by (simp add: cross_at_def xi_def yi_def xj_def yj_def n_def del: One_nat_def)
  have p1: "\<bar>xi * yj\<bar> \<le> coord_bound * coord_bound" and p2: "\<bar>xj * yi\<bar> \<le> coord_bound * coord_bound"
    using b by (simp_all add: abs_mult_bound)
  have t: "\<bar>xi * yj - xj * yi\<bar> \<le> 2 * (coord_bound * coord_bound)"
    using p1 p2 by linarith
  show "\<bar>cross_at (map endPt segments) i\<bar> \<le> 2 * (coord_bound * coord_bound)"
    using t by (simp add: c)
  have sx: "\<bar>xi + xj\<bar> \<le> 2 * coord_bound" and sy: "\<bar>yi + yj\<bar> \<le> 2 * coord_bound"
    using b by linarith+
  have e: "fX (map endPt segments ! i) = xi" "fY (map endPt segments ! i) = yi"
    "fX (map endPt segments ! ((i + 1) mod length segments)) = xj"
    "fY (map endPt segments ! ((i + 1) mod length segments)) = yj"
    using assms(2) j ne by (simp_all add: xi_def yi_def xj_def yj_def n_def del: One_nat_def)
  show "\<bar>(fX (map endPt segments ! i)
           + fX (map endPt segments ! ((i + 1) mod length segments)))
          * cross_at (map endPt segments) i\<bar>
         \<le> 2 * coord_bound * (2 * (coord_bound * coord_bound))"
    unfolding e c using abs_mult_bound [OF sx t] .
  show "\<bar>(fY (map endPt segments ! i)
           + fY (map endPt segments ! ((i + 1) mod length segments)))
          * cross_at (map endPt segments) i\<bar>
         \<le> 2 * coord_bound * (2 * (coord_bound * coord_bound))"
    unfolding e c using abs_mult_bound [OF sy t] .
qed

lemma com_step_Finite:
  assumes "in_range segments" and "i < length segments"
    and "\<bar>A + cross_at (map endPt segments) i\<bar> \<le> GR_ScalarMax"
    and "\<bar>CX + (fX (map endPt segments ! i)
                  + fX (map endPt segments ! ((i + 1) mod length segments)))
                 * cross_at (map endPt segments) i\<bar> \<le> GR_ScalarMax"
    and "\<bar>CY + (fY (map endPt segments ! i)
                  + fY (map endPt segments ! ((i + 1) mod length segments)))
                 * cross_at (map endPt segments) i\<bar> \<le> GR_ScalarMax"
  shows "com_step segments (Finite A, Finite CX, Finite CY) i =
           (Finite (A + cross_at (map endPt segments) i),
            Finite (CX + (fX (map endPt segments ! i)
                          + fX (map endPt segments ! ((i + 1) mod length segments)))
                         * cross_at (map endPt segments) i),
            Finite (CY + (fY (map endPt segments ! i)
                          + fY (map endPt segments ! ((i + 1) mod length segments)))
                         * cross_at (map endPt segments) i))"
proof -
  define n where "n = length segments"
  have ne: "segments \<noteq> []" using assms(2) by (cases segments) simp_all
  have npos: "0 < n" using ne by (simp add: n_def)
  have j: "(i + 1) mod n < n" using npos by (rule mod_less_divisor)
  define xi where "xi = fX (endPt (segments ! i))"
  define yi where "yi = fY (endPt (segments ! i))"
  define xj where "xj = fX (endPt (segments ! ((i + 1) mod n)))"
  define yj where "yj = fY (endPt (segments ! ((i + 1) mod n)))"
  have b: "\<bar>xi\<bar> \<le> coord_bound" "\<bar>yi\<bar> \<le> coord_bound" "\<bar>xj\<bar> \<le> coord_bound" "\<bar>yj\<bar> \<le> coord_bound"
    using in_range_nth [OF assms(1) assms(2)] in_range_nth [OF assms(1), of "(i + 1) mod n"] j
    by (simp_all add: xi_def yi_def xj_def yj_def n_def)
  have e: "fX (map endPt segments ! i) = xi" "fY (map endPt segments ! i) = yi"
    "fX (map endPt segments ! ((i + 1) mod length segments)) = xj"
    "fY (map endPt segments ! ((i + 1) mod length segments)) = yj"
    using assms(2) j ne by (simp_all add: xi_def yi_def xj_def yj_def n_def del: One_nat_def)
  have c: "cross_at (map endPt segments) i = xi * yj - xj * yi"
    using assms(2) j ne
    by (simp add: cross_at_def xi_def yi_def xj_def yj_def n_def del: One_nat_def)
  note cb = cross_at_bounds [OF assms(1) assms(2), unfolded e c]
  note rn = range_numbers
  have f: "to_float xi = Finite xi" "to_float yi = Finite yi"
    "to_float xj = Finite xj" "to_float yj = Finite yj"
    using b rn(1) by (simp_all add: to_float_Finite)
  have p1: "\<bar>xi * yj\<bar> \<le> GR_ScalarMax" and p2: "\<bar>xj * yi\<bar> \<le> GR_ScalarMax"
    using abs_mult_bound [OF b(1) b(4)] abs_mult_bound [OF b(3) b(2)] rn(2) by linarith+
  have t: "f_sub (f_mul (Finite xi) (Finite yj)) (f_mul (Finite xj) (Finite yi))
             = Finite (xi * yj - xj * yi)"
  proof -
    have "\<bar>xi * yj - xj * yi\<bar> \<le> GR_ScalarMax" using cb(1) rn(3) by linarith
    then show ?thesis using p1 p2 by (simp add: f_sub_def to_float_Finite)
  qed
  have sx: "f_add (Finite xi) (Finite xj) = Finite (xi + xj)"
    and sy: "f_add (Finite yi) (Finite yj) = Finite (yi + yj)"
  proof -
    have "\<bar>xi + xj\<bar> \<le> GR_ScalarMax" "\<bar>yi + yj\<bar> \<le> GR_ScalarMax"
      using b rn(4) by linarith+
    then show "f_add (Finite xi) (Finite xj) = Finite (xi + xj)"
      and "f_add (Finite yi) (Finite yj) = Finite (yi + yj)"
      by (simp_all add: to_float_Finite)
  qed
  have wx: "f_mul (Finite (xi + xj)) (Finite (xi * yj - xj * yi))
              = Finite ((xi + xj) * (xi * yj - xj * yi))"
    and wy: "f_mul (Finite (yi + yj)) (Finite (xi * yj - xj * yi))
              = Finite ((yi + yj) * (xi * yj - xj * yi))"
  proof -
    have "\<bar>(xi + xj) * (xi * yj - xj * yi)\<bar> \<le> GR_ScalarMax"
      "\<bar>(yi + yj) * (xi * yj - xj * yi)\<bar> \<le> GR_ScalarMax"
      using cb(2) cb(3) rn(5) by linarith+
    then show "f_mul (Finite (xi + xj)) (Finite (xi * yj - xj * yi))
              = Finite ((xi + xj) * (xi * yj - xj * yi))"
      and "f_mul (Finite (yi + yj)) (Finite (xi * yj - xj * yi))
              = Finite ((yi + yj) * (xi * yj - xj * yi))"
      by (simp_all add: to_float_Finite)
  qed
  have step: "com_step segments (Finite A, Finite CX, Finite CY) i =
      (f_add (Finite A) (Finite (xi * yj - xj * yi)),
       f_add (Finite CX) (Finite ((xi + xj) * (xi * yj - xj * yi))),
       f_add (Finite CY) (Finite ((yi + yj) * (xi * yj - xj * yi))))"
    by (simp only: com_step_def Let_def fst_conv snd_conv
          xi_def [symmetric] yi_def [symmetric] n_def [symmetric]
          xj_def [symmetric] yj_def [symmetric] f t sx sy wx wy)
  show ?thesis
    unfolding step e c
    using assms(3-5) [unfolded e c]
    by (simp add: to_float_Finite)
qed


lemma partial_sum_bound:
  fixes f :: "nat \<Rightarrow> real"
  assumes "\<forall>i<k. \<bar>f i\<bar> \<le> c" and "k \<le> 33554432" and "0 \<le> c"
  shows "\<bar>\<Sum>i\<leftarrow>[0..<k]. f i\<bar> \<le> 33554432 * c"
proof -
  have "\<bar>\<Sum>i\<leftarrow>[0..<k]. f i\<bar> \<le> real k * c"
    using assms(1) by (rule sum_list_abs_bound)
  also have "\<dots> \<le> 33554432 * c"
    using assms(2) assms(3) by (intro mult_right_mono) simp_all
  finally show ?thesis .
qed

lemma com_sums_bounds:
  assumes "in_range segments" and "k \<le> length segments"
  shows "\<bar>\<Sum>i\<leftarrow>[0..<k]. cross_at (map endPt segments) i\<bar>
           \<le> 33554432 * (2 * (coord_bound * coord_bound))"
    and "\<bar>\<Sum>i\<leftarrow>[0..<k]. (fX (map endPt segments ! i)
                      + fX (map endPt segments ! ((i + 1) mod length segments)))
                      * cross_at (map endPt segments) i\<bar>
           \<le> 33554432 * (2 * coord_bound * (2 * (coord_bound * coord_bound)))"
    and "\<bar>\<Sum>i\<leftarrow>[0..<k]. (fY (map endPt segments ! i)
                      + fY (map endPt segments ! ((i + 1) mod length segments)))
                      * cross_at (map endPt segments) i\<bar>
           \<le> 33554432 * (2 * coord_bound * (2 * (coord_bound * coord_bound)))"
proof -
  have k: "k \<le> 33554432" using assms by (simp add: in_range_def)
  have lt: "i < length segments" if "i < k" for i using that assms(2) by simp
  have c0: "0 \<le> 2 * (coord_bound * coord_bound)"
    and c1: "0 \<le> 2 * coord_bound * (2 * (coord_bound * coord_bound))"
    by (simp_all add: coord_bound_def)
  show "\<bar>\<Sum>i\<leftarrow>[0..<k]. cross_at (map endPt segments) i\<bar>
           \<le> 33554432 * (2 * (coord_bound * coord_bound))"
    using cross_at_bounds(1) [OF assms(1) lt] k c0 by (intro partial_sum_bound) simp_all
  show "\<bar>\<Sum>i\<leftarrow>[0..<k]. (fX (map endPt segments ! i)
                      + fX (map endPt segments ! ((i + 1) mod length segments)))
                      * cross_at (map endPt segments) i\<bar>
           \<le> 33554432 * (2 * coord_bound * (2 * (coord_bound * coord_bound)))"
    using cross_at_bounds(2) [OF assms(1) lt] k c1 by (intro partial_sum_bound) simp_all
  show "\<bar>\<Sum>i\<leftarrow>[0..<k]. (fY (map endPt segments ! i)
                      + fY (map endPt segments ! ((i + 1) mod length segments)))
                      * cross_at (map endPt segments) i\<bar>
           \<le> 33554432 * (2 * coord_bound * (2 * (coord_bound * coord_bound)))"
    using cross_at_bounds(3) [OF assms(1) lt] k c1 by (intro partial_sum_bound) simp_all
qed

lemma com_fold:
  assumes "in_range segments" and "k \<le> length segments"
  shows "foldl (com_step segments) (Finite 0, Finite 0, Finite 0) [0..<k] =
           (Finite (\<Sum>i\<leftarrow>[0..<k]. cross_at (map endPt segments) i),
            Finite (\<Sum>i\<leftarrow>[0..<k]. (fX (map endPt segments ! i)
                      + fX (map endPt segments ! ((i + 1) mod length segments)))
                      * cross_at (map endPt segments) i),
            Finite (\<Sum>i\<leftarrow>[0..<k]. (fY (map endPt segments ! i)
                      + fY (map endPt segments ! ((i + 1) mod length segments)))
                      * cross_at (map endPt segments) i))"
  using assms(2)
proof (induction k)
  case 0
  show ?case by simp
next
  case (Suc k)
  then have k: "k < length segments" by simp
  note b = com_sums_bounds [OF assms(1) Suc.prems]
  note rn = range_numbers
  have b1: "\<bar>(\<Sum>i\<leftarrow>[0..<k]. cross_at (map endPt segments) i)
              + cross_at (map endPt segments) k\<bar> \<le> GR_ScalarMax"
    using b(1) rn(7) by simp
  have b2: "\<bar>(\<Sum>i\<leftarrow>[0..<k]. (fX (map endPt segments ! i)
                      + fX (map endPt segments ! ((i + 1) mod length segments)))
                      * cross_at (map endPt segments) i)
              + (fX (map endPt segments ! k)
                      + fX (map endPt segments ! ((k + 1) mod length segments)))
                      * cross_at (map endPt segments) k\<bar> \<le> GR_ScalarMax"
    using b(2) rn(9) by (simp del: One_nat_def)
  have b3: "\<bar>(\<Sum>i\<leftarrow>[0..<k]. (fY (map endPt segments ! i)
                      + fY (map endPt segments ! ((i + 1) mod length segments)))
                      * cross_at (map endPt segments) i)
              + (fY (map endPt segments ! k)
                      + fY (map endPt segments ! ((k + 1) mod length segments)))
                      * cross_at (map endPt segments) k\<bar> \<le> GR_ScalarMax"
    using b(3) rn(9) by (simp del: One_nat_def)
  have IH: "foldl (com_step segments) (Finite 0, Finite 0, Finite 0) [0..<k] =
           (Finite (\<Sum>i\<leftarrow>[0..<k]. cross_at (map endPt segments) i),
            Finite (\<Sum>i\<leftarrow>[0..<k]. (fX (map endPt segments ! i)
                      + fX (map endPt segments ! ((i + 1) mod length segments)))
                      * cross_at (map endPt segments) i),
            Finite (\<Sum>i\<leftarrow>[0..<k]. (fY (map endPt segments ! i)
                      + fY (map endPt segments ! ((i + 1) mod length segments)))
                      * cross_at (map endPt segments) i))"
    using Suc.IH k by simp
  have "foldl (com_step segments) (Finite 0, Finite 0, Finite 0) [0..<Suc k] =
          com_step segments (foldl (com_step segments) (Finite 0, Finite 0, Finite 0) [0..<k]) k"
    by simp
  also note IH
  also note com_step_Finite [OF assms(1) k b1 b2 b3]
  finally show ?case by (simp del: One_nat_def)
qed

lemma avg_sums_bounds:
  assumes "in_range segments" and "k \<le> length segments"
  shows "\<bar>\<Sum>p\<leftarrow>take k (map endPt segments). fX p\<bar> \<le> 33554432 * coord_bound"
    and "\<bar>\<Sum>p\<leftarrow>take k (map endPt segments). fY p\<bar> \<le> 33554432 * coord_bound"
proof -
  have k: "k \<le> 33554432" using assms by (simp add: in_range_def)
  have lt: "i < length segments" if "i < k" for i using that assms(2) by simp
  have tk: "take k (map endPt segments) = map (\<lambda>i. endPt (segments ! i)) [0..<k]"
    using assms(2) by (intro nth_equalityI) simp_all
  have c0: "0 \<le> coord_bound" by (simp add: coord_bound_def)
  have "\<bar>\<Sum>i\<leftarrow>[0..<k]. fX (endPt (segments ! i))\<bar> \<le> 33554432 * coord_bound"
    using in_range_nth(1) [OF assms(1) lt] k c0 by (intro partial_sum_bound) simp_all
  then show "\<bar>\<Sum>p\<leftarrow>take k (map endPt segments). fX p\<bar> \<le> 33554432 * coord_bound"
    by (simp add: tk comp_def)
  have "\<bar>\<Sum>i\<leftarrow>[0..<k]. fY (endPt (segments ! i))\<bar> \<le> 33554432 * coord_bound"
    using in_range_nth(2) [OF assms(1) lt] k c0 by (intro partial_sum_bound) simp_all
  then show "\<bar>\<Sum>p\<leftarrow>take k (map endPt segments). fY p\<bar> \<le> 33554432 * coord_bound"
    by (simp add: tk comp_def)
qed

lemma avg_fold:
  assumes "in_range segments" and "k \<le> length segments"
  shows "foldl (avg_step segments) (Finite 0, Finite 0) [0..<k] =
           (Finite (\<Sum>p\<leftarrow>take k (map endPt segments). fX p),
            Finite (\<Sum>p\<leftarrow>take k (map endPt segments). fY p))"
  using assms(2)
proof (induction k)
  case 0
  show ?case by simp
next
  case (Suc k)
  then have k: "k < length segments" by simp
  note b = avg_sums_bounds [OF assms(1) Suc.prems]
  note rn = range_numbers
  have c: "\<bar>fX (endPt (segments ! k))\<bar> \<le> GR_ScalarMax" "\<bar>fY (endPt (segments ! k))\<bar> \<le> GR_ScalarMax"
    using in_range_nth [OF assms(1) k] rn(1) by linarith+
  have t: "take (Suc k) (map endPt segments) = take k (map endPt segments) @ [endPt (segments ! k)]"
    using k by (simp add: take_Suc_conv_app_nth)
  have b1: "\<bar>(\<Sum>p\<leftarrow>take k (map endPt segments). fX p) + fX (endPt (segments ! k))\<bar> \<le> GR_ScalarMax"
    and b2: "\<bar>(\<Sum>p\<leftarrow>take k (map endPt segments). fY p) + fY (endPt (segments ! k))\<bar> \<le> GR_ScalarMax"
    using b rn(6) by (simp_all add: t)
  have IH: "foldl (avg_step segments) (Finite 0, Finite 0) [0..<k] =
           (Finite (\<Sum>p\<leftarrow>take k (map endPt segments). fX p),
            Finite (\<Sum>p\<leftarrow>take k (map endPt segments). fY p))"
    using Suc.IH k by simp
  have step: "avg_step segments (Finite A, Finite B) k =
      (f_add (Finite A) (Finite (fX (endPt (segments ! k)))),
       f_add (Finite B) (Finite (fY (endPt (segments ! k)))))" for A B
    using c by (simp add: avg_step_def Let_def to_float_Finite)
  have "foldl (avg_step segments) (Finite 0, Finite 0) [0..<Suc k] =
          avg_step segments (foldl (avg_step segments) (Finite 0, Finite 0) [0..<k]) k"
    by simp
  also note IH
  also note step
  finally show ?case
    using b1 b2 by (simp add: t to_float_Finite)
qed


lemma assert_not_nan_Finite [simp]:
  "assert_not_nan (Finite a) (Finite b) = Inr \<lparr>fX = a, fY = b\<rparr>"
  by (simp add: assert_not_nan_def)

lemma center_of_mass_closed_form:
  assumes "segments \<noteq> []" and "in_range segments"
  shows "center_of_mass segments =
           Inr (if \<bar>shoelace_sum (map endPt segments)\<bar> < SK_ScalarNearlyZero
                then vertex_mean (map endPt segments)
                else polygon_centroid (map endPt segments))"
proof -
  define n where "n = length segments"
  define S where "S = (\<Sum>i\<leftarrow>[0..<n]. cross_at (map endPt segments) i)"
  define CX where "CX = (\<Sum>i\<leftarrow>[0..<n]. (fX (map endPt segments ! i)
                      + fX (map endPt segments ! ((i + 1) mod n)))
                      * cross_at (map endPt segments) i)"
  define CY where "CY = (\<Sum>i\<leftarrow>[0..<n]. (fY (map endPt segments ! i)
                      + fY (map endPt segments ! ((i + 1) mod n)))
                      * cross_at (map endPt segments) i)"
  define SX where "SX = (\<Sum>p\<leftarrow>map endPt segments. fX p)"
  define SY where "SY = (\<Sum>p\<leftarrow>map endPt segments. fY p)"
  note rn = range_numbers
  have npos: "0 < n" using assms(1) by (simp add: n_def)
  have n1: "1 \<le> real n" using npos by simp
  have nb: "real n \<le> 33554432" using assms(2) by (simp add: in_range_def n_def)
  have com: "foldl (com_step segments) (Finite 0, Finite 0, Finite 0) [0..<n]
               = (Finite S, Finite CX, Finite CY)"
    unfolding n_def S_def CX_def CY_def by (rule com_fold [OF assms(2)]) simp
  have avg: "foldl (avg_step segments) (Finite 0, Finite 0) [0..<n] = (Finite SX, Finite SY)"
    using avg_fold [OF assms(2), of n] by (simp add: n_def SX_def SY_def)
  have bs: "\<bar>S\<bar> \<le> 33554432 * (2 * (coord_bound * coord_bound))"
    and bcx: "\<bar>CX\<bar> \<le> 33554432 * (2 * coord_bound * (2 * (coord_bound * coord_bound)))"
    and bcy: "\<bar>CY\<bar> \<le> 33554432 * (2 * coord_bound * (2 * (coord_bound * coord_bound)))"
    using com_sums_bounds [OF assms(2), of n] by (simp_all add: n_def S_def CX_def CY_def)
  have bsx: "\<bar>SX\<bar> \<le> 33554432 * coord_bound" and bsy: "\<bar>SY\<bar> \<le> 33554432 * coord_bound"
    using avg_sums_bounds [OF assms(2), of n] by (simp_all add: n_def SX_def SY_def)
  have fn: "to_float (real n) = Finite (real n)"
    using nb by (intro to_float_Finite) (simp add: GR_ScalarMax_def)
  have inv_n: "\<bar>1 / real n\<bar> \<le> 1" using n1 by simp
  have denom: "f_div (Finite SK_Scalar1) (to_float (real n)) = Finite (1 / real n)"
  proof -
    have "\<bar>1 / real n\<bar> \<le> GR_ScalarMax" using inv_n by (simp add: GR_ScalarMax_def)
    then have "to_float (1 / real n) = Finite (1 / real n)" by (rule to_float_Finite)
    then show ?thesis using npos by (simp add: fn)
  qed
  have mean_bound: "\<bar>v * (1 / real n)\<bar> \<le> GR_ScalarMax" if "\<bar>v\<bar> \<le> 33554432 * coord_bound" for v
  proof -
    have "\<bar>v * (1 / real n)\<bar> \<le> (33554432 * coord_bound) * 1"
      using that inv_n by (rule abs_mult_bound)
    then show ?thesis using rn(6) by simp
  qed
  have mean: "to_float (SX / real n) = Finite (SX / real n)"
    "to_float (SY / real n) = Finite (SY / real n)"
    using mean_bound [OF bsx] mean_bound [OF bsy] by (simp_all add: to_float_Finite)
  have small: "center_of_mass segments = Inr (vertex_mean (map endPt segments))"
    if "\<bar>S\<bar> < SK_ScalarNearlyZero"
  proof -
    have "center_of_mass segments
            = assert_not_nan (to_float (SX / real n)) (to_float (SY / real n))"
      using that by (simp add: center_of_mass_def Let_def n_def [symmetric] com avg denom)
    also have "\<dots> = Inr \<lparr>fX = SX / real n, fY = SY / real n\<rparr>"
      by (simp only: mean assert_not_nan_Finite)
    also have "\<dots> = Inr (vertex_mean (map endPt segments))"
      by (simp add: vertex_mean_def SX_def SY_def n_def)
    finally show ?thesis .
  qed
  have big: "center_of_mass segments = Inr (polygon_centroid (map endPt segments))"
    if nz: "\<not> \<bar>S\<bar> < SK_ScalarNearlyZero"
  proof -
    have s3: "\<bar>S * 3\<bar> \<le> GR_ScalarMax" using bs rn(8) by simp
    have lo: "3 / 4096 \<le> \<bar>S * 3\<bar>" using nz by (simp add: SK_ScalarNearlyZero_def)
    then have ne: "S * 3 \<noteq> 0" by auto
    have "\<bar>1 / (S * 3)\<bar> = 1 / \<bar>S * 3\<bar>" by (simp only: abs_divide abs_one)
    also have "\<dots> \<le> 1 / (3 / 4096)"
      using lo by (intro divide_left_mono) (simp_all add: mult_pos_pos)
    finally have binv: "\<bar>1 / (S * 3)\<bar> \<le> 4096 / 3" by simp
    have inv: "f_div (Finite GR_Scalar1) (Finite (S * 3)) = Finite (1 / (S * 3))"
    proof -
      have "\<bar>1 / (S * 3)\<bar> \<le> GR_ScalarMax" using binv by (simp add: GR_ScalarMax_def)
      then have "to_float (1 / (S * 3)) = Finite (1 / (S * 3))" by (rule to_float_Finite)
      then show ?thesis using ne by simp
    qed
    have prod_bound: "\<bar>v * (1 / (S * 3))\<bar> \<le> GR_ScalarMax"
      if "\<bar>v\<bar> \<le> 33554432 * (2 * coord_bound * (2 * (coord_bound * coord_bound)))" for v
      using abs_mult_bound [OF that binv] rn(10) by linarith
    have res: "to_float (CX * (1 / (S * 3))) = Finite (CX * (1 / (S * 3)))"
      "to_float (CY * (1 / (S * 3))) = Finite (CY * (1 / (S * 3)))"
      using prod_bound [OF bcx] prod_bound [OF bcy] by (simp_all only: to_float_Finite)
    have "center_of_mass segments
            = assert_not_nan (f_mul (Finite CX) (f_div (Finite GR_Scalar1) (f_mul (Finite S) (Finite 3))))
                (f_mul (Finite CY) (f_div (Finite GR_Scalar1) (f_mul (Finite S) (Finite 3))))"
      using nz by (simp add: center_of_mass_def Let_def n_def [symmetric] com del: f_mul.simps f_div.simps)
    also have "\<dots> = assert_not_nan (to_float (CX * (1 / (S * 3)))) (to_float (CY * (1 / (S * 3))))"
      by (simp only: f_mul.simps to_float_Finite [OF s3] inv)
    also have "\<dots> = Inr \<lparr>fX = CX * (1 / (S * 3)), fY = CY * (1 / (S * 3))\<rparr>"
      by (simp only: res assert_not_nan_Finite)
    also have "\<dots> = Inr (polygon_centroid (map endPt segments))"
      by (simp add: polygon_centroid_def signed_area_def shoelace_sum_def S_def CX_def CY_def n_def)
    finally show ?thesis .
  qed
  have "shoelace_sum (map endPt segments) = S"
    by (simp add: shoelace_sum_def S_def n_def)
  then show ?thesis using small big by simp
qed


lemma center_of_mass_in_range:
  assumes "segments \<noteq> []" and "in_range segments"
  shows "\<exists>c. center_of_mass segments = Inr c"
  using center_of_mass_closed_form [OF assms] by blast

lemma center_of_mass_Nil: "center_of_mass [] = Inl NaNCenter"
  by (simp add: center_of_mass_def SK_ScalarNearlyZero_def to_float_def GR_ScalarMax_def
        assert_not_nan_def)



lemma unit_square_in_range: "in_range unit_square_segments"
  by (simp add: in_range_def unit_square_segments_def coord_bound_def push_line_def endPt_def
        mkPt_def)

section \<open>The two passes of the normal solver\<close>

lemma same_shape_refl [simp]: "same_shape s s"
  by (simp add: same_shape_def)

lemma same_shape_sizes:
  "same_shape s t \<Longrightarrow> vsize s = vsize t \<and> isize s = isize t \<and> countPoints s = countPoints t
     \<and> endPt s = endPt t"
  by (simp add: same_shape_def vsize_def isize_def countPoints_def endPt_def)

lemma norm_fold_line:
  assumes "fType s = kLine"
  shows "fst (foldl (norm_point side) (s, prev) [0..<countPoints s]) =
           s\<lparr>fNorms := (fNorms s)(0 := setOrthog (pt_normalize (pt_sub (fPts s 0) prev)) side)\<rparr>"
  using assms by (simp add: countPoints_def norm_point_def Let_def)

lemma upt_two: "[0..<2] = [0, Suc 0]"
  by (simp add: upt_rec numeral_2_eq_2)

lemma norm_fold_quad:
  assumes "fType s = kQuad"
  shows "fst (foldl (norm_point side) (s, prev) [0..<countPoints s]) =
           s\<lparr>fNorms := (fNorms s)
                 (0 := setOrthog (pt_normalize (pt_sub (fPts s 0) prev)) side,
                  1 := setOrthog (pt_normalize (pt_sub (fPts s 1) (fPts s 0))) side)\<rparr>"
  using assms by (simp add: countPoints_def norm_point_def Let_def upt_two)

lemma norm_fold_shape:
  "same_shape (fst (foldl (norm_point side) (s, prev) [0..<countPoints s])) s"
  by (cases "fType s") (simp_all add: norm_fold_line norm_fold_quad same_shape_def)

lemma sum_list_cyclic_shift:
  fixes g :: "nat \<Rightarrow> 'a::comm_monoid_add"
  shows "(\<Sum>a\<leftarrow>[0..<n]. g ((a + 1) mod n)) = (\<Sum>b\<leftarrow>[0..<n]. g b)"
proof (cases n)
  case 0
  then show ?thesis by simp
next
  case (Suc m)
  have eq: "map (\<lambda>a. g (Suc a mod Suc m)) [0..<m] = map (\<lambda>a. g (Suc a)) [0..<m]"
    by (rule map_cong) simp_all
  have "(\<Sum>a\<leftarrow>[0..<Suc m]. g ((a + 1) mod Suc m)) = (\<Sum>a\<leftarrow>[0..<m]. g (Suc a)) + g 0"
    by (simp add: eq)
  moreover have "(\<Sum>b\<leftarrow>[0..<Suc m]. g b) = g 0 + (\<Sum>a\<leftarrow>[0..<m]. g (Suc a))"
    by (simp only: upt_conv_Cons [of 0 "Suc m"] map_Suc_upt [symmetric]) (simp add: comp_def)
  ultimately show ?thesis using Suc by (simp add: add.commute)
qed

lemma sum_list_nth_map:
  "(\<Sum>b\<leftarrow>[0..<length xs]. f (xs ! b)) = (\<Sum>x\<leftarrow>xs. f x)"
proof -
  have "map (\<lambda>b. f (xs ! b)) [0..<length xs] = map f (map (\<lambda>b. xs ! b) [0..<length xs])"
    by simp
  then show ?thesis by (simp only: map_nth)
qed

lemma sum_list_vsize:
  "(\<Sum>s\<leftarrow>segments. vsize s) =
     5 * length (filter (\<lambda>s. fType s = kLine) segments)
     + 6 * length (filter (\<lambda>s. fType s = kQuad) segments)"
  by (induction segments) (auto simp add: vsize_def, (metis SegType.exhaust)+)

lemma sum_list_isize:
  "(\<Sum>s\<leftarrow>segments. isize s) =
     9 * length (filter (\<lambda>s. fType s = kLine) segments)
     + 12 * length (filter (\<lambda>s. fType s = kQuad) segments)"
  by (induction segments) (auto simp add: isize_def, (metis SegType.exhaust)+)

lemma norms_fold_inv:
  assumes "k \<le> length segments"
  shows "length (fst (foldl (norms_step side) (segments, v0, i0) [0..<k])) = length segments \<and>
         (\<forall>j<length segments.
            same_shape (fst (foldl (norms_step side) (segments, v0, i0) [0..<k]) ! j) (segments ! j)) \<and>
         fst (snd (foldl (norms_step side) (segments, v0, i0) [0..<k]))
           = v0 + (\<Sum>a\<leftarrow>[0..<k]. vsize (segments ! ((a + 1) mod length segments))) \<and>
         snd (snd (foldl (norms_step side) (segments, v0, i0) [0..<k]))
           = i0 + (\<Sum>a\<leftarrow>[0..<k]. isize (segments ! ((a + 1) mod length segments)))"
  using assms
proof (induction k)
  case 0
  show ?case by simp
next
  case (Suc k)
  define st where "st = foldl (norms_step side) (segments, v0, i0) [0..<k]"
  define n where "n = length segments"
  have k: "k < n" using Suc.prems by (simp add: n_def)
  then have npos: "0 < n" by simp
  have b: "(k + 1) mod n < n" using npos by (rule mod_less_divisor)
  have IH: "length (fst st) = n"
    "\<forall>j<n. same_shape (fst st ! j) (segments ! j)"
    "fst (snd st) = v0 + (\<Sum>a\<leftarrow>[0..<k]. vsize (segments ! ((a + 1) mod n)))"
    "snd (snd st) = i0 + (\<Sum>a\<leftarrow>[0..<k]. isize (segments ! ((a + 1) mod n)))"
    using Suc.IH Suc.prems by (simp_all add: st_def n_def)
  have shb: "same_shape (fst st ! ((k + 1) mod n)) (segments ! ((k + 1) mod n))"
    using IH(2) b by blast
  define segb' where "segb' = fst (foldl (norm_point side)
       (fst st ! ((k + 1) mod n), endPt (fst st ! k)) [0..<countPoints (fst st ! ((k + 1) mod n))])"
  have step: "norms_step side st k =
      ((fst st)[(k + 1) mod n := segb'],
       fst (snd st) + vsize (segments ! ((k + 1) mod n)),
       snd (snd st) + isize (segments ! ((k + 1) mod n)))"
    using shb
    by (simp add: norms_step_def Let_def IH(1) segb'_def vsize_def isize_def same_shape_def)
  have shb': "same_shape segb' (segments ! ((k + 1) mod n))"
    using norm_fold_shape [of side "fst st ! ((k + 1) mod n)" "endPt (fst st ! k)"] shb
    by (simp add: segb'_def same_shape_def)
  have fold: "foldl (norms_step side) (segments, v0, i0) [0..<Suc k] = norms_step side st k"
    by (simp add: st_def)
  show ?case
    unfolding fold step n_def [symmetric]
    using IH shb' b by (simp add: nth_list_update)
qed


lemma mid_fold_inv:
  assumes "k \<le> length segments"
  shows "length (fst (foldl mid_step (segments, v0, i0) [0..<k])) = length segments \<and>
         (\<forall>j<length segments.
            same_shape (fst (foldl mid_step (segments, v0, i0) [0..<k]) ! j) (segments ! j) \<and>
            fNorms (fst (foldl mid_step (segments, v0, i0) [0..<k]) ! j) = fNorms (segments ! j)) \<and>
         fst (snd (foldl mid_step (segments, v0, i0) [0..<k])) = v0 + 4 * k \<and>
         snd (snd (foldl mid_step (segments, v0, i0) [0..<k])) = i0 + 6 * k"
  using assms
proof (induction k)
  case 0
  show ?case by simp
next
  case (Suc k)
  define st where "st = foldl mid_step (segments, v0, i0) [0..<k]"
  define n where "n = length segments"
  have k: "k < n" using Suc.prems by (simp add: n_def)
  then have npos: "0 < n" by simp
  have b: "(k + 1) mod n < n" using npos by (rule mod_less_divisor)
  have IH: "length (fst st) = n"
    "\<forall>j<n. same_shape (fst st ! j) (segments ! j) \<and> fNorms (fst st ! j) = fNorms (segments ! j)"
    "fst (snd st) = v0 + 4 * k"
    "snd (snd st) = i0 + 6 * k"
    using Suc.IH Suc.prems by (simp_all add: st_def n_def)
  have fold: "foldl mid_step (segments, v0, i0) [0..<Suc k] = mid_step st k"
    by (simp add: st_def)
  show ?case
    unfolding fold n_def [symmetric]
    using IH b
    by (simp add: mid_step_def Let_def nth_list_update same_shape_def)
qed

lemma sizing_folds:
  "fst (snd (foldl mid_step
       (foldl (norms_step side) (segments, 0, 0) [0..<length segments]) [0..<length segments]))
     = 5 * length (filter (\<lambda>s. fType s = kLine) segments)
       + 6 * length (filter (\<lambda>s. fType s = kQuad) segments)
       + 4 * length segments \<and>
   snd (snd (foldl mid_step
       (foldl (norms_step side) (segments, 0, 0) [0..<length segments]) [0..<length segments]))
     = 9 * length (filter (\<lambda>s. fType s = kLine) segments)
       + 12 * length (filter (\<lambda>s. fType s = kQuad) segments)
       + 6 * length segments \<and>
   length (fst (foldl mid_step
       (foldl (norms_step side) (segments, 0, 0) [0..<length segments]) [0..<length segments]))
     = length segments"
proof -
  define st1 where "st1 = foldl (norms_step side) (segments, 0, 0) [0..<length segments]"
  define st2 where "st2 = foldl mid_step st1 [0..<length segments]"
  have n1: "length (fst st1) = length segments"
    "fst (snd st1) = (\<Sum>a\<leftarrow>[0..<length segments]. vsize (segments ! ((a + 1) mod length segments)))"
    "snd (snd st1) = (\<Sum>a\<leftarrow>[0..<length segments]. isize (segments ! ((a + 1) mod length segments)))"
    using norms_fold_inv [of "length segments" segments side 0 0] by (simp_all add: st1_def)
  have v1: "fst (snd st1) = (\<Sum>s\<leftarrow>segments. vsize s)"
    unfolding n1(2)
    using sum_list_cyclic_shift [of "\<lambda>b. vsize (segments ! b)" "length segments"]
    by (simp only: sum_list_nth_map)
  have i1: "snd (snd st1) = (\<Sum>s\<leftarrow>segments. isize s)"
    unfolding n1(3)
    using sum_list_cyclic_shift [of "\<lambda>b. isize (segments ! b)" "length segments"]
    by (simp only: sum_list_nth_map)
  have st1_eq: "st1 = (fst st1, fst (snd st1), snd (snd st1))" by simp
  have n2: "length (fst st2) = length segments"
    "fst (snd st2) = fst (snd st1) + 4 * length segments"
    "snd (snd st2) = snd (snd st1) + 6 * length segments"
    using mid_fold_inv [of "length segments" "fst st1" "fst (snd st1)" "snd (snd st1)"] n1(1)
    by (simp_all add: st2_def)
  show ?thesis
    using n2 v1 i1
    by (simp add: sum_list_vsize sum_list_isize st2_def [symmetric] st1_def [symmetric])
qed

lemma compute_vectors_counts:
  assumes "center_of_mass segments = Inr fanPt"
  shows "\<exists>segments'.
           compute_vectors segments dir =
             Inr (segments', fanPt,
                  5 * length (filter (\<lambda>s. fType s = kLine) segments)
                    + 6 * length (filter (\<lambda>s. fType s = kQuad) segments)
                    + 4 * length segments,
                  9 * length (filter (\<lambda>s. fType s = kLine) segments)
                    + 12 * length (filter (\<lambda>s. fType s = kQuad) segments)
                    + 6 * length segments) \<and>
           length segments' = length segments"
proof -
  define side where "side = (if dir = kCCW_Direction then kRight_Side else kLeft_Side)"
  define st2 where "st2 = foldl mid_step
       (foldl (norms_step side) (segments, 0, 0) [0..<length segments]) [0..<length segments]"
  have "compute_vectors segments dir = Inr (fst st2, fanPt, fst (snd st2), snd (snd st2))"
    by (simp add: compute_vectors_def assms Let_def st2_def side_def)
  then show ?thesis
    using sizing_folds [of side segments] by (simp add: st2_def)
qed

lemma compute_vectors_nonempty:
  assumes "segments \<noteq> []" and "in_range segments"
  shows "\<exists>segments' fanPt.
           compute_vectors segments dir =
             Inr (segments', fanPt,
                  5 * length (filter (\<lambda>s. fType s = kLine) segments)
                    + 6 * length (filter (\<lambda>s. fType s = kQuad) segments)
                    + 4 * length segments,
                  9 * length (filter (\<lambda>s. fType s = kLine) segments)
                    + 12 * length (filter (\<lambda>s. fType s = kQuad) segments)
                    + 6 * length segments) \<and>
           center_of_mass segments = Inr fanPt \<and> length segments' = length segments"
proof -
  obtain fanPt where fan: "center_of_mass segments = Inr fanPt"
    using center_of_mass_in_range [OF assms] by blast
  show ?thesis
    using compute_vectors_counts [OF fan, of dir] fan by blast
qed

lemma all_lines_filter:
  assumes "\<forall>s\<in>set segments. fType s = kLine"
  shows "filter (\<lambda>s. fType s = kLine) segments = segments"
    and "filter (\<lambda>s. fType s = kQuad) segments = []"
  using assms by (induction segments) auto

lemma unit_square_loop:
  "get_segments_loop conv (iter unit_square) DegenerateTestData_new [] =
     Inr (\<lparr>fStage = kNonDegenerate, fFirstPoint = mkPt 0 0, fLineNormal = mkPt 0 (- 1), fLineC = 0\<rparr>,
          unit_square_segments)"
proof -
  have f3: "update_degenerate_test
      \<lparr>fStage = kLine_Stage, fFirstPoint = mkPt 0 0, fLineNormal = mkPt 0 (- 1), fLineC = 0\<rparr> (mkPt 1 1) =
      \<lparr>fStage = kNonDegenerate, fFirstPoint = mkPt 0 0, fLineNormal = mkPt 0 (- 1), fLineC = 0\<rparr>"
    by (simp add: update_degenerate_test_def TOL_def eval_pt)
  show ?thesis
    by (simp add: unit_square_def unit_square_segments_def feed0 feed1 f3 update_kNonDegenerate)
qed

lemma unit_square_center:
  "center_of_mass unit_square_segments = Inr (mkPt (1 / 2) (1 / 2))"
proof -
  have ne: "unit_square_segments \<noteq> []"
    by (simp add: unit_square_segments_def)
  show ?thesis
    unfolding center_of_mass_closed_form [OF ne unit_square_in_range]
    by (simp add: unit_square_segments_def shoelace_sum_def
          polygon_centroid_def signed_area_def cross_at_def endPt_def push_line_def
          SK_ScalarNearlyZero_def mkPt_def upt_rec)
qed

text \<open>
  Claim C2. For every segment sequence and either side, the two loops of the sizing pass
  leave the counters at 5 vertices and 9 indices for every line segment, 6 vertices and
  12 indices for every quadratic segment, and 4 vertices and 6 indices for every junction
  (one per segment). Whenever \<open>center_of_mass\<close> returns a fan point,
  \<open>compute_vectors\<close> returns it with these counts, and it does so for every sequence
  that is not empty and lies in the range without overflow; for N line segments the
  counts are 9 N vertices and 15 N indices; and the unit square with the corners (0,0),
  (1,0), (1,1), (0,1) is accepted with 36 vertices, 60 indices and the fan point
  (1/2, 1/2). (When the assertion of \<open>center_of_mass\<close> fails, it fails before the loops
  are reached.)
\<close>

theorem sizing_pass_counts:
  "(fst (snd (foldl mid_step
        (foldl (norms_step side) (segments, 0, 0) [0..<length segments]) [0..<length segments]))
      = 5 * length (filter (\<lambda>s. fType s = kLine) segments)
        + 6 * length (filter (\<lambda>s. fType s = kQuad) segments)
        + 4 * length segments \<and>
    snd (snd (foldl mid_step
        (foldl (norms_step side) (segments, 0, 0) [0..<length segments]) [0..<length segments]))
      = 9 * length (filter (\<lambda>s. fType s = kLine) segments)
        + 12 * length (filter (\<lambda>s. fType s = kQuad) segments)
        + 6 * length segments) \<and>
   (\<forall>fanPt. center_of_mass segments = Inr fanPt \<longrightarrow>
      (\<exists>segments'.
         compute_vectors segments dir =
           Inr (segments', fanPt,
                5 * length (filter (\<lambda>s. fType s = kLine) segments)
                  + 6 * length (filter (\<lambda>s. fType s = kQuad) segments)
                  + 4 * length segments,
                9 * length (filter (\<lambda>s. fType s = kLine) segments)
                  + 12 * length (filter (\<lambda>s. fType s = kQuad) segments)
                  + 6 * length segments))) \<and>
   (segments \<noteq> [] \<and> in_range segments \<longrightarrow>
      (\<exists>segments' fanPt.
         compute_vectors segments dir =
           Inr (segments', fanPt,
                5 * length (filter (\<lambda>s. fType s = kLine) segments)
                  + 6 * length (filter (\<lambda>s. fType s = kQuad) segments)
                  + 4 * length segments,
                9 * length (filter (\<lambda>s. fType s = kLine) segments)
                  + 12 * length (filter (\<lambda>s. fType s = kQuad) segments)
                  + 6 * length segments))) \<and>
   ((\<forall>s\<in>set segments. fType s = kLine) \<longrightarrow>
      (\<forall>fanPt. center_of_mass segments = Inr fanPt \<longrightarrow>
         (\<exists>segments'.
            compute_vectors segments dir =
              Inr (segments', fanPt, 9 * length segments, 15 * length segments))) \<and>
      (segments \<noteq> [] \<and> in_range segments \<longrightarrow>
         (\<exists>segments' fanPt.
            compute_vectors segments dir =
              Inr (segments', fanPt, 9 * length segments, 15 * length segments)))) \<and>
   (\<exists>segments'.
      get_segments conv unit_square [] fanPt0 vCount0 iCount0 =
        Inr (True, segments', mkPt (1 / 2) (1 / 2), 36, 60))"
proof (intro conjI impI allI)
  show "fst (snd (foldl mid_step
        (foldl (norms_step side) (segments, 0, 0) [0..<length segments]) [0..<length segments]))
      = 5 * length (filter (\<lambda>s. fType s = kLine) segments)
        + 6 * length (filter (\<lambda>s. fType s = kQuad) segments)
        + 4 * length segments"
    using sizing_folds [of side segments] by simp
next
  show "snd (snd (foldl mid_step
        (foldl (norms_step side) (segments, 0, 0) [0..<length segments]) [0..<length segments]))
      = 9 * length (filter (\<lambda>s. fType s = kLine) segments)
        + 12 * length (filter (\<lambda>s. fType s = kQuad) segments)
        + 6 * length segments"
    using sizing_folds [of side segments] by simp
next
  fix fanPt assume "center_of_mass segments = Inr fanPt"
  then show "\<exists>segments'.
         compute_vectors segments dir =
           Inr (segments', fanPt,
                5 * length (filter (\<lambda>s. fType s = kLine) segments)
                  + 6 * length (filter (\<lambda>s. fType s = kQuad) segments)
                  + 4 * length segments,
                9 * length (filter (\<lambda>s. fType s = kLine) segments)
                  + 12 * length (filter (\<lambda>s. fType s = kQuad) segments)
                  + 6 * length segments)"
    using compute_vectors_counts [of segments fanPt dir] by blast
next
  assume "segments \<noteq> [] \<and> in_range segments"
  then show "\<exists>segments' fanPt.
         compute_vectors segments dir =
           Inr (segments', fanPt,
                5 * length (filter (\<lambda>s. fType s = kLine) segments)
                  + 6 * length (filter (\<lambda>s. fType s = kQuad) segments)
                  + 4 * length segments,
                9 * length (filter (\<lambda>s. fType s = kLine) segments)
                  + 12 * length (filter (\<lambda>s. fType s = kQuad) segments)
                  + 6 * length segments)"
    using compute_vectors_nonempty [of segments dir] by blast
next
  fix fanPt
  assume lines: "\<forall>s\<in>set segments. fType s = kLine"
    and fan: "center_of_mass segments = Inr fanPt"
  show "\<exists>segments'.
         compute_vectors segments dir =
           Inr (segments', fanPt, 9 * length segments, 15 * length segments)"
    using compute_vectors_counts [OF fan, of dir]
    by (auto simp add: all_lines_filter [OF lines])
next
  assume lines: "\<forall>s\<in>set segments. fType s = kLine"
    and a: "segments \<noteq> [] \<and> in_range segments"
  show "\<exists>segments' fanPt.
         compute_vectors segments dir =
           Inr (segments', fanPt, 9 * length segments, 15 * length segments)"
    using compute_vectors_nonempty [of segments dir] a
    by (auto simp add: all_lines_filter [OF lines])
next
  have lines: "\<forall>s\<in>set unit_square_segments. fType s = kLine"
    by (simp add: unit_square_segments_def push_line_def)
  have len: "length unit_square_segments = 4"
    by (simp add: unit_square_segments_def)
  obtain segments' where
    cv: "compute_vectors unit_square_segments kCCW_Direction
           = Inr (segments', mkPt (1 / 2) (1 / 2), 36, 60)"
    using compute_vectors_counts [OF unit_square_center, of kCCW_Direction]
    by (auto simp add: all_lines_filter [OF lines] len)
  have "get_segments conv unit_square [] fanPt0 vCount0 iCount0 =
        Inr (True, segments', mkPt (1 / 2) (1 / 2), 36, 60)"
    using cv by (simp add: get_segments_def unit_square_loop isDegenerate_def)
                (simp add: unit_square_def)
  then show "\<exists>segments'.
      get_segments conv unit_square [] fanPt0 vCount0 iCount0 =
        Inr (True, segments', mkPt (1 / 2) (1 / 2), 36, 60)" by blast
qed

theorem sizing_pass_counts_witness:
  "unit_square_segments \<noteq> [] \<and> in_range unit_square_segments \<and>
   map fType unit_square_segments = [kLine, kLine, kLine, kLine] \<and>
   center_of_mass unit_square_segments = Inr (mkPt (1 / 2) (1 / 2)) \<and>
   (\<exists>segments'.
      compute_vectors unit_square_segments kCCW_Direction
        = Inr (segments', mkPt (1 / 2) (1 / 2), 36, 60))"
proof -
  have lines: "\<forall>s\<in>set unit_square_segments. fType s = kLine"
    by (simp add: unit_square_segments_def push_line_def)
  have "\<exists>segments'.
      compute_vectors unit_square_segments kCCW_Direction
        = Inr (segments', mkPt (1 / 2) (1 / 2), 9 * length unit_square_segments,
               15 * length unit_square_segments)"
    using sizing_pass_counts [where segments = unit_square_segments and dir = kCCW_Direction]
      lines unit_square_center by blast
  then show ?thesis
    using unit_square_in_range unit_square_center
    by (simp add: unit_square_segments_def push_line_def)
qed








section \<open>Winding direction and reversal\<close>


































section \<open>The write cursors of the mesh builder\<close>

lemma write_at_nth:
  "write_at buf pos xs k =
     (if pos \<le> k \<and> k < pos + length xs then Some (xs ! (k - pos)) else buf k)"
proof (induction xs arbitrary: buf pos)
  case Nil
  show ?case by auto
next
  case (Cons x xs)
  show ?case
    unfolding write_at.simps Cons.IH
    by (auto simp add: nth_Cons' Suc_diff_Suc)
qed

lemma dom_write_at: "dom (write_at buf pos xs) = dom buf \<union> {pos..<pos + length xs}"
  by (auto simp add: dom_def write_at_nth)

lemma write_at_Some_cases:
  assumes "write_at buf pos xs k = Some w"
  shows "w \<in> set xs \<or> buf k = Some w"
  using assms by (auto simp add: write_at_nth split: if_splits)

lemma unat_idx16_le: "unat (idx16 m) \<le> m"
  by (simp add: idx16_def unat_of_nat)

lemma idx16_less: "m < b \<Longrightarrow> unat (idx16 m) < b"
  using unat_idx16_le [of m] by simp

lemma length_wedge_verts [simp]: "length (wedge_verts sega segb) = 4"
  by (simp add: wedge_verts_def Let_def)

lemma length_line_verts [simp]: "length (line_verts d fanPt sega segb) = 5"
  by (simp add: line_verts_def Let_def)

lemma length_quad_verts [simp]: "length (quad_verts u fanPt sega segb) = 6"
  by (simp add: quad_verts_def Let_def)

lemma length_wedge_idxs [simp]: "length (wedge_idxs v) = 6"
  by (simp add: wedge_idxs_def)

lemma length_line_idxs [simp]: "length (line_idxs v) = 9"
  by (simp add: line_idxs_def)

lemma length_quad_idxs [simp]: "length (quad_idxs v) = 12"
  by (simp add: quad_idxs_def)

lemma wedge_idxs_bound: "w \<in> set (wedge_idxs v) \<Longrightarrow> unat w < v + 4"
  by (auto simp add: wedge_idxs_def intro: idx16_less)

lemma line_idxs_bound: "w \<in> set (line_idxs v) \<Longrightarrow> unat w < v + 5"
  by (auto simp add: line_idxs_def intro: idx16_less)

lemma quad_idxs_bound: "w \<in> set (quad_idxs v) \<Longrightarrow> unat w < v + 6"
  by (auto simp add: quad_idxs_def intro: idx16_less)

lemma length_group_verts [simp]: "length (group_verts d u fanPt sega segb) = vsize segb"
  by (simp add: group_verts_def vsize_def)

lemma length_group_idxs [simp]: "length (group_idxs segb v) = isize segb"
  by (simp add: group_idxs_def isize_def)

lemma group_idxs_bound: "w \<in> set (group_idxs segb v) \<Longrightarrow> unat w < v + vsize segb"
  by (auto simp add: group_idxs_def vsize_def dest: line_idxs_bound quad_idxs_bound split: if_splits)

lemma cv_step_eq:
  "cv_step d u segments fanPt st a =
     \<lparr>verts = write_at (write_at (verts st) (vCur st)
                 (wedge_verts (segments ! a) (segments ! ((a + 1) mod length segments))))
               (vCur st + 4)
               (group_verts d u fanPt (segments ! a) (segments ! ((a + 1) mod length segments))),
      idxs = write_at (write_at (idxs st) (iCur st) (wedge_idxs (vCur st)))
               (iCur st + 6)
               (group_idxs (segments ! ((a + 1) mod length segments)) (vCur st + 4)),
      vCur = vCur st + 4 + vsize (segments ! ((a + 1) mod length segments)),
      iCur = iCur st + 6 + isize (segments ! ((a + 1) mod length segments))\<rparr>"
  by (simp add: cv_step_def Let_def group_verts_def group_idxs_def vsize_def isize_def)

lemma cv_run_Suc:
  "cv_run d u segments fanPt (Suc m) = cv_step d u segments fanPt (cv_run d u segments fanPt m) m"
  by (simp add: cv_run_def)

lemma cv_run_0:
  "cv_run d u segments fanPt 0 = \<lparr>verts = Map.empty, idxs = Map.empty, vCur = 0, iCur = 0\<rparr>"
  by (simp add: cv_run_def)

lemma cv_run_inv:
  "dom (verts (cv_run d u segments fanPt m)) = {..<vCur (cv_run d u segments fanPt m)} \<and>
   dom (idxs (cv_run d u segments fanPt m)) = {..<iCur (cv_run d u segments fanPt m)} \<and>
   vCur (cv_run d u segments fanPt m)
     = (\<Sum>a\<leftarrow>[0..<m]. 4 + vsize (segments ! ((a + 1) mod length segments))) \<and>
   iCur (cv_run d u segments fanPt m)
     = (\<Sum>a\<leftarrow>[0..<m]. 6 + isize (segments ! ((a + 1) mod length segments))) \<and>
   (\<forall>k w. idxs (cv_run d u segments fanPt m) k = Some w
           \<longrightarrow> unat w < vCur (cv_run d u segments fanPt m))"
proof (induction m)
  case 0
  show ?case by (simp add: cv_run_0)
next
  case (Suc m)
  define st where "st = cv_run d u segments fanPt m"
  define segb where "segb = segments ! (Suc m mod length segments)"
  have IH: "dom (verts st) = {..<vCur st}" "dom (idxs st) = {..<iCur st}"
    "vCur st = (\<Sum>a\<leftarrow>[0..<m]. 4 + vsize (segments ! ((a + 1) mod length segments)))"
    "iCur st = (\<Sum>a\<leftarrow>[0..<m]. 6 + isize (segments ! ((a + 1) mod length segments)))"
    "\<forall>k w. idxs st k = Some w \<longrightarrow> unat w < vCur st"
    unfolding st_def using Suc.IH by blast+
  have d1: "dom (verts (cv_run d u segments fanPt (Suc m))) = {..<vCur st + 4 + vsize segb}"
    by (auto simp add: cv_run_Suc cv_step_eq dom_write_at IH(1) st_def [symmetric]
          segb_def [symmetric])
  have d2: "dom (idxs (cv_run d u segments fanPt (Suc m))) = {..<iCur st + 6 + isize segb}"
    by (auto simp add: cv_run_Suc cv_step_eq dom_write_at IH(2) st_def [symmetric]
          segb_def [symmetric])
  have c1: "vCur (cv_run d u segments fanPt (Suc m)) = vCur st + 4 + vsize segb"
    and c2: "iCur (cv_run d u segments fanPt (Suc m)) = iCur st + 6 + isize segb"
    by (simp_all add: cv_run_Suc cv_step_eq st_def segb_def)
  have b: "\<forall>k w. idxs (cv_run d u segments fanPt (Suc m)) k = Some w
             \<longrightarrow> unat w < vCur st + 4 + vsize segb"
  proof (intro allI impI)
    fix k w assume "idxs (cv_run d u segments fanPt (Suc m)) k = Some w"
    then have "write_at (write_at (idxs st) (iCur st) (wedge_idxs (vCur st)))
               (iCur st + 6) (group_idxs segb (vCur st + 4)) k = Some w"
      by (simp add: cv_run_Suc cv_step_eq st_def segb_def)
    then consider "w \<in> set (group_idxs segb (vCur st + 4))" | "w \<in> set (wedge_idxs (vCur st))"
      | "idxs st k = Some w"
      using write_at_Some_cases by metis
    then show "unat w < vCur st + 4 + vsize segb"
    proof cases
      case 1
      then show ?thesis using group_idxs_bound [of w segb "vCur st + 4"] by simp
    next
      case 2
      then show ?thesis using wedge_idxs_bound [of w "vCur st"] by simp
    next
      case 3
      then show ?thesis using IH(5) by fastforce
    qed
  qed
  show ?case
    using d1 d2 b IH(3) IH(4) by (simp add: c1 c2 segb_def)
qed

lemma cv_run_stable_step:
  "k < vCur (cv_run d u segments fanPt m) \<Longrightarrow>
     verts (cv_run d u segments fanPt (Suc m)) k = verts (cv_run d u segments fanPt m) k"
  "k < iCur (cv_run d u segments fanPt m) \<Longrightarrow>
     idxs (cv_run d u segments fanPt (Suc m)) k = idxs (cv_run d u segments fanPt m) k"
  by (simp_all add: cv_run_Suc cv_step_eq write_at_nth)

lemma cv_run_cursor_step:
  "vCur (cv_run d u segments fanPt m) < vCur (cv_run d u segments fanPt (Suc m))"
  "iCur (cv_run d u segments fanPt m) < iCur (cv_run d u segments fanPt (Suc m))"
  by (simp_all add: cv_run_Suc cv_step_eq)

lemma cv_run_cursor_mono:
  "m \<le> m' \<Longrightarrow> vCur (cv_run d u segments fanPt m) \<le> vCur (cv_run d u segments fanPt m')"
proof (induction m')
  case 0
  then show ?case by simp
next
  case (Suc m')
  then show ?case
    using cv_run_cursor_step(1) [of d u segments fanPt m']
    by (cases "m = Suc m'") (simp_all add: le_Suc_eq)
qed

lemma cv_run_stable:
  "m \<le> m' \<Longrightarrow> k < vCur (cv_run d u segments fanPt m) \<Longrightarrow>
     verts (cv_run d u segments fanPt m') k = verts (cv_run d u segments fanPt m) k"
proof (induction m')
  case 0
  then show ?case by simp
next
  case (Suc m')
  show ?case
  proof (cases "m = Suc m'")
    case True
    then show ?thesis by simp
  next
    case False
    then have le: "m \<le> m'" using Suc.prems(1) by simp
    have "k < vCur (cv_run d u segments fanPt m')"
      using cv_run_cursor_mono [OF le, of d u segments fanPt] Suc.prems(2) by simp
    then show ?thesis
      using cv_run_stable_step(1) [of k d u segments fanPt m'] Suc.IH [OF le Suc.prems(2)] by simp
  qed
qed


lemma cv_run_icursor_mono:
  "m \<le> m' \<Longrightarrow> iCur (cv_run d u segments fanPt m) \<le> iCur (cv_run d u segments fanPt m')"
proof (induction m')
  case 0
  then show ?case by simp
next
  case (Suc m')
  then show ?case
    using cv_run_cursor_step(2) [of d u segments fanPt m']
    by (cases "m = Suc m'") (simp_all add: le_Suc_eq)
qed

lemma sum_list_const_plus:
  fixes f :: "'a \<Rightarrow> nat"
  shows "(\<Sum>x\<leftarrow>xs. c + f x) = c * length xs + (\<Sum>x\<leftarrow>xs. f x)"
  by (induction xs) simp_all

lemma cv_run_total:
  "vCur (cv_run d u segments fanPt (length segments))
     = 4 * length segments + (\<Sum>s\<leftarrow>segments. vsize s)"
  "iCur (cv_run d u segments fanPt (length segments))
     = 6 * length segments + (\<Sum>s\<leftarrow>segments. isize s)"
proof -
  have "vCur (cv_run d u segments fanPt (length segments))
        = (\<Sum>a\<leftarrow>[0..<length segments]. 4 + vsize (segments ! ((a + 1) mod length segments)))"
    using cv_run_inv [of d u segments fanPt "length segments"] by blast
  also have "\<dots> = (\<Sum>b\<leftarrow>[0..<length segments]. 4 + vsize (segments ! b))"
    by (rule sum_list_cyclic_shift [of "\<lambda>b. 4 + vsize (segments ! b)" "length segments"])
  also have "\<dots> = (\<Sum>s\<leftarrow>segments. 4 + vsize s)"
    by (rule sum_list_nth_map)
  finally show "vCur (cv_run d u segments fanPt (length segments))
     = 4 * length segments + (\<Sum>s\<leftarrow>segments. vsize s)"
    by (simp add: sum_list_const_plus)
  have "iCur (cv_run d u segments fanPt (length segments))
        = (\<Sum>a\<leftarrow>[0..<length segments]. 6 + isize (segments ! ((a + 1) mod length segments)))"
    using cv_run_inv [of d u segments fanPt "length segments"] by blast
  also have "\<dots> = (\<Sum>b\<leftarrow>[0..<length segments]. 6 + isize (segments ! b))"
    by (rule sum_list_cyclic_shift [of "\<lambda>b. 6 + isize (segments ! b)" "length segments"])
  also have "\<dots> = (\<Sum>s\<leftarrow>segments. 6 + isize s)"
    by (rule sum_list_nth_map)
  finally show "iCur (cv_run d u segments fanPt (length segments))
     = 6 * length segments + (\<Sum>s\<leftarrow>segments. isize s)"
    by (simp add: sum_list_const_plus)
qed

lemma compute_vectors_shape:
  assumes "compute_vectors segments0 dir = Inr (segments, fanPt, vCount, iCount)"
  shows "length segments = length segments0"
    and "\<forall>j<length segments0. same_shape (segments ! j) (segments0 ! j)"
    and "vCount = 4 * length segments + (\<Sum>s\<leftarrow>segments. vsize s)"
    and "iCount = 6 * length segments + (\<Sum>s\<leftarrow>segments. isize s)"
    and "center_of_mass segments0 = Inr fanPt"
proof -
  define n where "n = length segments0"
  define side where "side = (if dir = kCCW_Direction then kRight_Side else kLeft_Side)"
  define st1 where "st1 = foldl (norms_step side) (segments0, 0, 0) [0..<n]"
  define st2 where "st2 = foldl mid_step st1 [0..<n]"
  obtain fan where fan: "center_of_mass segments0 = Inr fan"
    using assms by (cases "center_of_mass segments0") (simp_all add: compute_vectors_def)
  have res: "segments = fst st2" "fanPt = fan" "vCount = fst (snd st2)" "iCount = snd (snd st2)"
    using assms by (simp_all add: compute_vectors_def fan Let_def st2_def st1_def side_def n_def)
  show "center_of_mass segments0 = Inr fanPt" using fan res(2) by simp
  have inv1: "length (fst st1) = n" "\<forall>j<n. same_shape (fst st1 ! j) (segments0 ! j)"
    using norms_fold_inv [of n segments0 side 0 0] by (simp_all add: st1_def n_def)
  have st1_eq: "st1 = (fst st1, fst (snd st1), snd (snd st1))" by simp
  have inv2: "length (fst st2) = n" "\<forall>j<n. same_shape (fst st2 ! j) (fst st1 ! j)"
    using mid_fold_inv [of n "fst st1" "fst (snd st1)" "snd (snd st1)"] inv1(1)
    by (simp_all add: st2_def)
  show len: "length segments = length segments0"
    using inv2(1) by (simp add: res(1) n_def)
  show sh: "\<forall>j<length segments0. same_shape (segments ! j) (segments0 ! j)"
    using inv1(2) inv2(2) by (simp add: res(1) n_def same_shape_def)
  have "map vsize segments = map vsize segments0" "map isize segments = map isize segments0"
    using len sh by (auto intro!: nth_equalityI simp add: same_shape_sizes)
  then have sums: "(\<Sum>s\<leftarrow>segments. vsize s) = (\<Sum>s\<leftarrow>segments0. vsize s)"
    "(\<Sum>s\<leftarrow>segments. isize s) = (\<Sum>s\<leftarrow>segments0. isize s)"
    by simp_all
  have folds: "fst (snd st2) = 5 * length (filter (\<lambda>s. fType s = kLine) segments0)
                 + 6 * length (filter (\<lambda>s. fType s = kQuad) segments0) + 4 * n"
    "snd (snd st2) = 9 * length (filter (\<lambda>s. fType s = kLine) segments0)
                 + 12 * length (filter (\<lambda>s. fType s = kQuad) segments0) + 6 * n"
    using sizing_folds [of side segments0] unfolding st2_def st1_def n_def by blast+
  show "vCount = 4 * length segments + (\<Sum>s\<leftarrow>segments. vsize s)"
    using folds(1) sum_list_vsize [of segments0] sums(1) len by (simp add: res(3) n_def)
  show "iCount = 6 * length segments + (\<Sum>s\<leftarrow>segments. isize s)"
    using folds(2) sum_list_isize [of segments0] sums(2) len by (simp add: res(4) n_def)
qed

text \<open>
  Claim C9. When \<open>compute_vectors\<close> has returned the segments and the counts,
  \<open>create_vertices\<close> ends with its vertex cursor at \<open>vCount\<close> and its index cursor
  at \<open>iCount\<close>; the positions it has written are exactly those below \<open>vCount\<close> in
  the vertex buffer and those below \<open>iCount\<close> in the index buffer; every index it has
  stored, read as an unsigned 16-bit number, is less than \<open>vCount\<close>; and each iteration
  moves both cursors strictly upwards, writes exactly the positions between the old and
  the new cursor, and leaves every position written before as it was.
\<close>

theorem create_vertices_cursors:
  assumes "compute_vectors segments0 dir = Inr (segments, fanPt, vCount, iCount)"
  shows "vCur (create_vertices d u segments fanPt) = vCount \<and>
         iCur (create_vertices d u segments fanPt) = iCount \<and>
         dom (verts (create_vertices d u segments fanPt)) = {..<vCount} \<and>
         dom (idxs (create_vertices d u segments fanPt)) = {..<iCount} \<and>
         (\<forall>k w. idxs (create_vertices d u segments fanPt) k = Some w \<longrightarrow> unat w < vCount) \<and>
         (\<forall>m<length segments.
            vCur (cv_run d u segments fanPt m) < vCur (cv_run d u segments fanPt (Suc m)) \<and>
            iCur (cv_run d u segments fanPt m) < iCur (cv_run d u segments fanPt (Suc m)) \<and>
            dom (verts (cv_run d u segments fanPt m)) = {..<vCur (cv_run d u segments fanPt m)} \<and>
            dom (idxs (cv_run d u segments fanPt m)) = {..<iCur (cv_run d u segments fanPt m)} \<and>
            dom (verts (cv_run d u segments fanPt (Suc m)))
              = {..<vCur (cv_run d u segments fanPt (Suc m))} \<and>
            dom (idxs (cv_run d u segments fanPt (Suc m)))
              = {..<iCur (cv_run d u segments fanPt (Suc m))} \<and>
            (\<forall>k<vCur (cv_run d u segments fanPt m).
               verts (cv_run d u segments fanPt (Suc m)) k = verts (cv_run d u segments fanPt m) k) \<and>
            (\<forall>k<iCur (cv_run d u segments fanPt m).
               idxs (cv_run d u segments fanPt (Suc m)) k = idxs (cv_run d u segments fanPt m) k))"
proof -
  note sh = compute_vectors_shape [OF assms]
  have v: "vCur (create_vertices d u segments fanPt) = vCount"
    and i: "iCur (create_vertices d u segments fanPt) = iCount"
    using cv_run_total [of d u segments fanPt] sh(3) sh(4) by (simp_all add: create_vertices_def)
  note inv = cv_run_inv [of d u segments fanPt "length segments", folded create_vertices_def,
      unfolded v i]
  have "dom (verts (create_vertices d u segments fanPt)) = {..<vCount}"
    "dom (idxs (create_vertices d u segments fanPt)) = {..<iCount}"
    "\<forall>k w. idxs (create_vertices d u segments fanPt) k = Some w \<longrightarrow> unat w < vCount"
    using inv by blast+
  moreover have "\<forall>m<length segments.
            vCur (cv_run d u segments fanPt m) < vCur (cv_run d u segments fanPt (Suc m)) \<and>
            iCur (cv_run d u segments fanPt m) < iCur (cv_run d u segments fanPt (Suc m)) \<and>
            dom (verts (cv_run d u segments fanPt m)) = {..<vCur (cv_run d u segments fanPt m)} \<and>
            dom (idxs (cv_run d u segments fanPt m)) = {..<iCur (cv_run d u segments fanPt m)} \<and>
            dom (verts (cv_run d u segments fanPt (Suc m)))
              = {..<vCur (cv_run d u segments fanPt (Suc m))} \<and>
            dom (idxs (cv_run d u segments fanPt (Suc m)))
              = {..<iCur (cv_run d u segments fanPt (Suc m))} \<and>
            (\<forall>k<vCur (cv_run d u segments fanPt m).
               verts (cv_run d u segments fanPt (Suc m)) k = verts (cv_run d u segments fanPt m) k) \<and>
            (\<forall>k<iCur (cv_run d u segments fanPt m).
               idxs (cv_run d u segments fanPt (Suc m)) k = idxs (cv_run d u segments fanPt m) k)"
    using cv_run_cursor_step [of d u segments fanPt] cv_run_inv [of d u segments fanPt]
      cv_run_stable_step [of _ d u segments fanPt]
    by blast
  ultimately show ?thesis using v i by blast
qed


theorem create_vertices_cursors_witness:
  "\<exists>segments fanPt.
     compute_vectors unit_square_segments kCCW_Direction = Inr (segments, fanPt, 36, 60) \<and>
     vCur (create_vertices (\<lambda>p a b. 0) (\<lambda>qpts p. p) segments fanPt) = 36 \<and>
     iCur (create_vertices (\<lambda>p a b. 0) (\<lambda>qpts p. p) segments fanPt) = 60 \<and>
     dom (verts (create_vertices (\<lambda>p a b. 0) (\<lambda>qpts p. p) segments fanPt)) = {..<36} \<and>
     dom (idxs (create_vertices (\<lambda>p a b. 0) (\<lambda>qpts p. p) segments fanPt)) = {..<60}"
proof -
  have ne: "unit_square_segments \<noteq> []"
    by (simp add: unit_square_segments_def)
  have lines: "\<forall>s\<in>set unit_square_segments. fType s = kLine"
    by (simp add: unit_square_segments_def push_line_def)
  have len: "length unit_square_segments = 4"
    by (simp add: unit_square_segments_def)
  obtain segments fanPt where
    cv: "compute_vectors unit_square_segments kCCW_Direction = Inr (segments, fanPt, 36, 60)"
    using compute_vectors_nonempty [OF ne unit_square_in_range, of kCCW_Direction]
    by (auto simp add: all_lines_filter [OF lines] len)
  show ?thesis
    using create_vertices_cursors [OF cv, of "\<lambda>p a b. 0" "\<lambda>qpts p. p"] cv by blast
qed


section \<open>The distance fields nobody uses\<close>

lemma wedge_verts_sentinel:
  "j < 4 \<Longrightarrow> fD0 (wedge_verts sega segb ! j) = - 1 \<and> fD1 (wedge_verts sega segb ! j) = - 1"
  by (auto simp add: wedge_verts_def Let_def mkVertex_def nth_Cons' less_Suc_eq numeral_eq_Suc)

lemma line_verts_sentinel:
  "j < 5 \<Longrightarrow> fD0 (line_verts d fanPt sega segb ! j) = - 1
             \<and> fD1 (line_verts d fanPt sega segb ! j) = - 1"
  by (auto simp add: line_verts_def Let_def mkVertex_def nth_Cons' less_Suc_eq numeral_eq_Suc)

lemma quad_verts_sentinel:
  "3 \<le> j \<Longrightarrow> j < 6 \<Longrightarrow>
     fD0 (quad_verts u fanPt sega segb ! j) = - GR_ScalarMax / 100 \<and>
     fD1 (quad_verts u fanPt sega segb ! j) = - GR_ScalarMax / 100"
  by (auto simp add: quad_verts_def Let_def mkVertex_def nth_Cons' less_Suc_eq numeral_eq_Suc)

lemma sentinels_differ: "(- 1 :: GrScalar) \<noteq> - GR_ScalarMax / 100"
  by (simp add: GR_ScalarMax_def)

lemma create_vertices_wedge:
  assumes "a < length segments" and "j < 4"
  shows "verts (create_vertices d u segments fanPt) (vCur (cv_run d u segments fanPt a) + j)
           = Some (wedge_verts (segments ! a) (segments ! ((a + 1) mod length segments)) ! j)"
proof -
  have "verts (cv_run d u segments fanPt (Suc a)) (vCur (cv_run d u segments fanPt a) + j)
          = Some (wedge_verts (segments ! a) (segments ! ((a + 1) mod length segments)) ! j)"
    using assms(2) by (simp add: cv_run_Suc cv_step_eq write_at_nth)
  moreover have "vCur (cv_run d u segments fanPt a) + j < vCur (cv_run d u segments fanPt (Suc a))"
    using assms(2) by (simp add: cv_run_Suc cv_step_eq)
  ultimately show ?thesis
    using cv_run_stable [of "Suc a" "length segments" _ d u segments fanPt] assms(1)
    by (simp add: create_vertices_def)
qed

lemma create_vertices_group:
  assumes "a < length segments" and "j < vsize (segments ! ((a + 1) mod length segments))"
  shows "verts (create_vertices d u segments fanPt) (vCur (cv_run d u segments fanPt a) + 4 + j)
           = Some (group_verts d u fanPt (segments ! a)
                     (segments ! ((a + 1) mod length segments)) ! j)"
proof -
  have "verts (cv_run d u segments fanPt (Suc a)) (vCur (cv_run d u segments fanPt a) + 4 + j)
          = Some (group_verts d u fanPt (segments ! a)
                     (segments ! ((a + 1) mod length segments)) ! j)"
    using assms(2) by (simp add: cv_run_Suc cv_step_eq write_at_nth)
  moreover have "vCur (cv_run d u segments fanPt a) + 4 + j
                   < vCur (cv_run d u segments fanPt (Suc a))"
    using assms(2) by (simp add: cv_run_Suc cv_step_eq)
  ultimately show ?thesis
    using cv_run_stable [of "Suc a" "length segments" _ d u segments fanPt] assms(1)
    by (simp add: create_vertices_def)
qed

lemma create_vertices_sentinels:
  assumes "a < length segments"
  shows "(\<forall>j<4. \<exists>vx. verts (create_vertices d u segments fanPt)
                        (vCur (cv_run d u segments fanPt a) + j) = Some vx
                     \<and> fD0 vx = - 1 \<and> fD1 vx = - 1)"
    and "fType (segments ! ((a + 1) mod length segments)) = kLine \<Longrightarrow>
         (\<forall>j<5. \<exists>vx. verts (create_vertices d u segments fanPt)
                        (vCur (cv_run d u segments fanPt a) + 4 + j) = Some vx
                     \<and> fD0 vx = - 1 \<and> fD1 vx = - 1)"
    and "fType (segments ! ((a + 1) mod length segments)) = kQuad \<Longrightarrow>
         (\<forall>j<6. 3 \<le> j \<longrightarrow>
            (\<exists>vx. verts (create_vertices d u segments fanPt)
                        (vCur (cv_run d u segments fanPt a) + 4 + j) = Some vx
                     \<and> fD0 vx = - GR_ScalarMax / 100 \<and> fD1 vx = - GR_ScalarMax / 100))"
proof -
  show "\<forall>j<4. \<exists>vx. verts (create_vertices d u segments fanPt)
                        (vCur (cv_run d u segments fanPt a) + j) = Some vx
                     \<and> fD0 vx = - 1 \<and> fD1 vx = - 1"
    using create_vertices_wedge [OF assms] wedge_verts_sentinel by blast
next
  assume line: "fType (segments ! ((a + 1) mod length segments)) = kLine"
  show "\<forall>j<5. \<exists>vx. verts (create_vertices d u segments fanPt)
                        (vCur (cv_run d u segments fanPt a) + 4 + j) = Some vx
                     \<and> fD0 vx = - 1 \<and> fD1 vx = - 1"
  proof (intro allI impI)
    fix j :: nat assume j: "j < 5"
    then have "j < vsize (segments ! ((a + 1) mod length segments))"
      using line by (simp add: vsize_def)
    from create_vertices_group [OF assms this, of d u fanPt]
    show "\<exists>vx. verts (create_vertices d u segments fanPt)
                        (vCur (cv_run d u segments fanPt a) + 4 + j) = Some vx
                     \<and> fD0 vx = - 1 \<and> fD1 vx = - 1"
      using line line_verts_sentinel [OF j] by (simp add: group_verts_def)
  qed
next
  assume quad: "fType (segments ! ((a + 1) mod length segments)) = kQuad"
  show "\<forall>j<6. 3 \<le> j \<longrightarrow>
            (\<exists>vx. verts (create_vertices d u segments fanPt)
                        (vCur (cv_run d u segments fanPt a) + 4 + j) = Some vx
                     \<and> fD0 vx = - GR_ScalarMax / 100 \<and> fD1 vx = - GR_ScalarMax / 100)"
  proof (intro allI impI)
    fix j :: nat assume j: "j < 6" and j3: "3 \<le> j"
    then have "j < vsize (segments ! ((a + 1) mod length segments))"
      using quad by (simp add: vsize_def)
    from create_vertices_group [OF assms this, of d u fanPt]
    show "\<exists>vx. verts (create_vertices d u segments fanPt)
                        (vCur (cv_run d u segments fanPt a) + 4 + j) = Some vx
                     \<and> fD0 vx = - GR_ScalarMax / 100 \<and> fD1 vx = - GR_ScalarMax / 100"
      using quad quad_verts_sentinel [OF j3 j] by (simp add: group_verts_def)
  qed
qed


lemma quad_corner_mesh:
  "\<exists>segments fanPt vCount iCount.
     compute_vectors quad_corner_segments kCCW_Direction = Inr (segments, fanPt, vCount, iCount) \<and>
     length segments = 2 \<and> fType (segments ! 0) = kQuad \<and> fType (segments ! 1) = kLine \<and>
     vCur (cv_run d u segments fanPt 0) = 0 \<and> vCur (cv_run d u segments fanPt 1) = 9"
proof -
  have ne: "quad_corner_segments \<noteq> []"
    by (simp add: quad_corner_segments_def)
  have rng: "in_range quad_corner_segments"
    by (simp add: in_range_def quad_corner_segments_def coord_bound_def push_quad_def
          push_line_def endPt_def mkPt_def)
  obtain segments fanPt vCount iCount where
    cv: "compute_vectors quad_corner_segments kCCW_Direction = Inr (segments, fanPt, vCount, iCount)"
    using compute_vectors_nonempty [OF ne rng, of kCCW_Direction] by blast
  note sh = compute_vectors_shape [OF cv]
  have len: "length segments = 2"
    using sh(1) by (simp add: quad_corner_segments_def)
  have "same_shape (segments ! 0) (quad_corner_segments ! 0)"
    "same_shape (segments ! 1) (quad_corner_segments ! 1)"
    using sh(2) [rule_format, of 0] sh(2) [rule_format, of 1]
    by (simp_all add: quad_corner_segments_def)
  then have ty: "fType (segments ! 0) = kQuad" "fType (segments ! 1) = kLine"
    by (simp_all add: same_shape_def quad_corner_segments_def push_quad_def push_line_def)
  have "vCur (cv_run d u segments fanPt 0) = 0"
    by (simp add: cv_run_0)
  moreover have "vCur (cv_run d u segments fanPt 1) = 9"
    using ty(2) by (simp add: cv_run_Suc [of d u segments fanPt 0, simplified] cv_run_0 cv_step_eq
        len vsize_def)
  ultimately show ?thesis using cv len ty by blast
qed

text \<open>
  Claim C8, as amended. For every junction \<open>a\<close>, the four vertices of the corner wedge
  carry -1 in both distance scalars, and so do the five vertices of the edge group when
  the segment after the junction is a line; when it is a quadratic, the three offset
  vertices of its edge group carry \<open>- GR_ScalarMax / 100\<close> in both. The two values are
  not the same.
\<close>

theorem create_vertices_distance_sentinels:
  assumes "a < length segments"
  shows "(\<forall>j<4. \<exists>vx. verts (create_vertices d u segments fanPt)
                        (vCur (cv_run d u segments fanPt a) + j) = Some vx
                     \<and> fD0 vx = - 1 \<and> fD1 vx = - 1) \<and>
         (fType (segments ! ((a + 1) mod length segments)) = kLine \<longrightarrow>
            (\<forall>j<5. \<exists>vx. verts (create_vertices d u segments fanPt)
                        (vCur (cv_run d u segments fanPt a) + 4 + j) = Some vx
                     \<and> fD0 vx = - 1 \<and> fD1 vx = - 1)) \<and>
         (fType (segments ! ((a + 1) mod length segments)) = kQuad \<longrightarrow>
            (\<forall>j<6. 3 \<le> j \<longrightarrow>
               (\<exists>vx. verts (create_vertices d u segments fanPt)
                        (vCur (cv_run d u segments fanPt a) + 4 + j) = Some vx
                     \<and> fD0 vx = - GR_ScalarMax / 100 \<and> fD1 vx = - GR_ScalarMax / 100))) \<and>
         (- 1 :: GrScalar) \<noteq> - GR_ScalarMax / 100"
  using create_vertices_sentinels [OF assms, of d u fanPt] sentinels_differ by blast


theorem create_vertices_distance_sentinels_witness:
  "(0::nat) < length quad_corner_segments \<and> (1::nat) < length quad_corner_segments \<and>
   fType (quad_corner_segments ! ((0 + 1) mod length quad_corner_segments)) = kLine \<and>
   fType (quad_corner_segments ! ((1 + 1) mod length quad_corner_segments)) = kQuad \<and>
   (\<exists>vx. verts (create_vertices (\<lambda>p a b. 0) (\<lambda>qpts p. p) quad_corner_segments (mkPt 0 0)) 3
            = Some vx \<and> fD0 vx = - 1 \<and> fD1 vx = - 1) \<and>
   (\<exists>vx. verts (create_vertices (\<lambda>p a b. 0) (\<lambda>qpts p. p) quad_corner_segments (mkPt 0 0)) 8
            = Some vx \<and> fD0 vx = - 1 \<and> fD1 vx = - 1) \<and>
   (\<exists>vx. verts (create_vertices (\<lambda>p a b. 0) (\<lambda>qpts p. p) quad_corner_segments (mkPt 0 0)) 18
            = Some vx \<and> fD0 vx = - GR_ScalarMax / 100 \<and> fD1 vx = - GR_ScalarMax / 100)"
proof -
  have len: "length quad_corner_segments = 2"
    by (simp add: quad_corner_segments_def)
  have ty: "fType (quad_corner_segments ! ((0 + 1) mod length quad_corner_segments)) = kLine"
    "fType (quad_corner_segments ! ((1 + 1) mod length quad_corner_segments)) = kQuad"
    by (simp_all add: quad_corner_segments_def push_line_def push_quad_def)
  have cur: "vCur (cv_run (\<lambda>p a b. 0) (\<lambda>qpts p. p) quad_corner_segments (mkPt 0 0) 0) = 0"
    "vCur (cv_run (\<lambda>p a b. 0) (\<lambda>qpts p. p) quad_corner_segments (mkPt 0 0) 1) = 9"
    using ty(1)
    by (simp_all add: cv_run_Suc [of _ _ _ _ 0, simplified] cv_run_0 cv_step_eq len vsize_def)
  have a0: "(0::nat) < length quad_corner_segments" and a1: "(1::nat) < length quad_corner_segments"
    using len by simp_all
  note w0 = create_vertices_distance_sentinels
    [OF a0, of "\<lambda>p a b. 0" "\<lambda>qpts p. p" "mkPt 0 0", unfolded cur]
  note w1 = create_vertices_distance_sentinels
    [OF a1, of "\<lambda>p a b. 0" "\<lambda>qpts p. p" "mkPt 0 0", unfolded cur]
  have "\<exists>vx. verts (create_vertices (\<lambda>p a b. 0) (\<lambda>qpts p. p) quad_corner_segments (mkPt 0 0)) (0 + 3)
            = Some vx \<and> fD0 vx = - 1 \<and> fD1 vx = - 1"
    using w0 [THEN conjunct1, rule_format, of 3] by simp
  moreover have "\<exists>vx. verts (create_vertices (\<lambda>p a b. 0) (\<lambda>qpts p. p) quad_corner_segments (mkPt 0 0))
            (0 + 4 + 4) = Some vx \<and> fD0 vx = - 1 \<and> fD1 vx = - 1"
    using w0 [THEN conjunct2, THEN conjunct1, rule_format, OF ty(1), of 4] by simp
  moreover have "\<exists>vx. verts (create_vertices (\<lambda>p a b. 0) (\<lambda>qpts p. p) quad_corner_segments (mkPt 0 0))
            (9 + 4 + 5) = Some vx \<and> fD0 vx = - GR_ScalarMax / 100 \<and> fD1 vx = - GR_ScalarMax / 100"
    using w1 [THEN conjunct2, THEN conjunct2, THEN conjunct1, rule_format, OF ty(2), of 5]
    by simp
  ultimately show ?thesis using a0 a1 ty by simp
qed


text \<open>
  The claim as it was stated has one sentinel for all of them. In the mesh of the outline
  of one quadratic and its closing line, the first wedge vertex (position 0) carries -1 and
  the first offset vertex of the quadratic's edge group (position 16) carries
  \<open>- GR_ScalarMax / 100\<close>.
\<close>

theorem distance_sentinel_counterexample:
  "(case compute_vectors quad_corner_segments kCCW_Direction of
      Inl e \<Rightarrow> False
    | Inr (segments, fanPt, vCount, iCount) \<Rightarrow>
        map_option fD0 (verts (create_vertices (\<lambda>p a b. 0) (\<lambda>qpts p. p) segments fanPt) 0)
          = Some (- 1) \<and>
        map_option fD0 (verts (create_vertices (\<lambda>p a b. 0) (\<lambda>qpts p. p) segments fanPt) 16)
          = Some (- GR_ScalarMax / 100) \<and>
        (- 1 :: GrScalar) \<noteq> - GR_ScalarMax / 100)"
proof -
  obtain segments fanPt vCount iCount where
    cv: "compute_vectors quad_corner_segments kCCW_Direction = Inr (segments, fanPt, vCount, iCount)"
    and len: "length segments = 2"
    and ty: "fType (segments ! 0) = kQuad" "fType (segments ! 1) = kLine"
    and cur: "vCur (cv_run (\<lambda>p a b. 0) (\<lambda>qpts p. p) segments fanPt 0) = 0"
      "vCur (cv_run (\<lambda>p a b. 0) (\<lambda>qpts p. p) segments fanPt 1) = 9"
    using quad_corner_mesh [of "\<lambda>p a b. 0" "\<lambda>qpts p. p"] by blast
  have a0: "(0::nat) < length segments" and a1: "(1::nat) < length segments"
    using len by simp_all
  have "\<exists>vx. verts (create_vertices (\<lambda>p a b. 0) (\<lambda>qpts p. p) segments fanPt) (0 + 0) = Some vx
          \<and> fD0 vx = - 1 \<and> fD1 vx = - 1"
    using create_vertices_sentinels(1) [OF a0, of "\<lambda>p a b. 0" "\<lambda>qpts p. p" fanPt,
        rule_format, of 0] cur(1)
    by simp
  then have w: "map_option fD0 (verts (create_vertices (\<lambda>p a b. 0) (\<lambda>qpts p. p) segments fanPt) 0)
      = Some (- 1)"
    by auto
  have q: "fType (segments ! ((1 + 1) mod length segments)) = kQuad"
    using ty(1) len by simp
  have "\<exists>vx. verts (create_vertices (\<lambda>p a b. 0) (\<lambda>qpts p. p) segments fanPt) (9 + 4 + 3) = Some vx
          \<and> fD0 vx = - GR_ScalarMax / 100 \<and> fD1 vx = - GR_ScalarMax / 100"
    using create_vertices_sentinels(3) [OF a1 q, of "\<lambda>p a b. 0" "\<lambda>qpts p. p" fanPt,
        rule_format, of 3] cur(2)
    by simp
  then have o: "map_option fD0 (verts (create_vertices (\<lambda>p a b. 0) (\<lambda>qpts p. p) segments fanPt) 16)
      = Some (- GR_ScalarMax / 100)"
    by auto
  show ?thesis
    using w o sentinels_differ by (simp add: cv)
qed



section \<open>Decoding and the classifier\<close>

lemma get_segments_loop_data:
  "get_segments_loop conv cmds data segments = Inr (data', segments') \<Longrightarrow>
     data' = foldl update_degenerate_test data (fed_points cmds)"
proof (induction conv cmds data segments rule: get_segments_loop.induct)
  case (5 conv p0 p1 p2 p3 rest data segments)
  then show ?case
    by (auto simp add: Let_def split: sum.splits)
qed simp_all

lemma cubic_segments_total:
  "3 dvd (length quads - q) \<Longrightarrow> \<exists>segments'. cubic_segments quads q segments = Inr segments'"
proof (induction quads q segments rule: cubic_segments.induct)
  case (1 quads q segments)
  show ?case
  proof (cases "q < length quads")
    case False
    then show ?thesis by (subst cubic_segments.simps) simp
  next
    case True
    obtain k where k: "length quads - q = 3 * k"
      using "1.prems" by (auto simp add: dvd_def)
    then have k1: "1 \<le> k" using True by (cases k) simp_all
    then have q2: "q + 2 < length quads" using k by simp
    have "length quads - (q + 3) = 3 * (k - 1)" using k k1 by simp
    then have "3 dvd (length quads - (q + 3))" by simp
    then obtain segments' where
      "cubic_segments quads (q + 3)
         (segments @ [push_quad (quads ! (q + 1)) (quads ! (q + 2))]) = Inr segments'"
      using "1.IH" [OF True q2] by blast
    then show ?thesis
      using True q2 by (subst cubic_segments.simps) simp
  qed
qed

lemma get_segments_loop_total:
  "\<forall>pts tol. 3 dvd length (conv pts tol) \<Longrightarrow>
     \<exists>segments'. get_segments_loop conv cmds data segments =
           Inr (foldl update_degenerate_test data (fed_points cmds), segments')"
proof (induction conv cmds data segments rule: get_segments_loop.induct)
  case (5 conv p0 p1 p2 p3 rest data segments)
  have "3 dvd (length (conv [p0, p1, p2, p3] 1) - 0)"
    using "5.prems" by simp
  then obtain segments1 where
    c: "cubic_segments (conv [p0, p1, p2, p3] 1) 0 segments = Inr segments1"
    using cubic_segments_total by blast
  show ?case
    using "5.IH" [OF refl c "5.prems"] by (simp add: c)
qed simp_all


lemma classifier_line_phase:
  assumes "fStage d = kLine_Stage"
  shows "isDegenerate (foldl update_degenerate_test d ps)
           \<longleftrightarrow> list_all (\<lambda>p. \<bar>dot (fLineNormal d) p + fLineC d\<bar> \<le> TOL) ps"
  using assms
proof (induction ps arbitrary: d)
  case Nil
  then show ?case by (simp add: isDegenerate_def)
next
  case (Cons p ps)
  show ?case
  proof (cases "\<bar>dot (fLineNormal d) p + fLineC d\<bar> > TOL")
    case True
    then have "fStage (update_degenerate_test d p) = kNonDegenerate"
      using Cons.prems by (simp add: update_kLine_Stage)
    then show ?thesis
      using True by (simp add: foldl_update_kNonDegenerate isDegenerate_def)
  next
    case False
    then have "update_degenerate_test d p = d"
      using Cons.prems by (simp add: update_kLine_Stage)
    then show ?thesis
      using False Cons.IH [OF Cons.prems] by simp
  qed
qed

lemma classifier_point_phase:
  assumes "fStage d = kPoint"
  shows "isDegenerate (foldl update_degenerate_test d ps)
           \<longleftrightarrow> (case dropWhile (near_anchor (fFirstPoint d)) ps of
                  [] \<Rightarrow> True
                | q # post \<Rightarrow> list_all (near_line (fFirstPoint d) q) post)"
  using assms
proof (induction ps)
  case Nil
  then show ?case by (simp add: isDegenerate_def)
next
  case (Cons p ps)
  show ?case
  proof (cases "near_anchor (fFirstPoint d) p")
    case True
    then have "update_degenerate_test d p = d"
      using Cons.prems by (simp add: update_kPoint_near near_anchor_def TOL_SQD_def)
    then show ?thesis
      using True Cons.IH [OF Cons.prems] by simp
  next
    case False
    then have far: "distanceToSqd p (fFirstPoint d) > TOL_SQD"
      by (simp add: near_anchor_def TOL_SQD_def)
    define d' where "d' = update_degenerate_test d p"
    have d': "fStage d' = kLine_Stage" "fLineNormal d' = line_normal (fFirstPoint d) p"
      "fLineC d' = - dot (line_normal (fFirstPoint d) p) (fFirstPoint d)"
      by (simp_all add: d'_def update_kPoint_far [OF Cons.prems far] line_normal_def)
    show ?thesis
      using False classifier_line_phase [OF d'(1), of ps]
      by (simp add: d'_def [symmetric] d'(2) d'(3) near_line_def)
  qed
qed

lemma classifier_thin:
  "isDegenerate (foldl update_degenerate_test DegenerateTestData_new pts) \<longleftrightarrow> thin pts"
proof (cases pts)
  case Nil
  then show ?thesis by (simp add: isDegenerate_def DegenerateTestData_new_def)
next
  case (Cons a ps)
  define d where "d = update_degenerate_test DegenerateTestData_new a"
  have d: "fStage d = kPoint" "fFirstPoint d = a"
    by (simp_all add: d_def update_kInitial DegenerateTestData_new_def)
  show ?thesis
    using classifier_point_phase [OF d(1), of ps, unfolded d(2)]
    by (simp add: Cons d_def [symmetric])
qed

text \<open>
  Being near the line of \<open>a\<close> and \<open>q\<close> is the usual bound on the distance of a point
  from the line through two points: the cross product of \<open>q - a\<close> and \<open>p - a\<close>, over
  the length of \<open>q - a\<close>.
\<close>

lemma near_line_distance:
  assumes "lengthSqd (pt_sub q a) \<noteq> 0"
  shows "near_line a q p \<longleftrightarrow>
           \<bar>fY (pt_sub q a) * fX (pt_sub p a) - fX (pt_sub q a) * fY (pt_sub p a)\<bar>
             \<le> TOL * sqrt (lengthSqd (pt_sub q a))"
proof -
  define v where "v = pt_sub q a"
  define len where "len = sqrt (lengthSqd v)"
  have pos: "0 < len"
    using assms lengthSqd_nonneg [of v] by (simp add: len_def v_def)
  have n: "line_normal a q = \<lparr>fX = fY v / len, fY = - (fX v / len)\<rparr>"
    using pos by (simp add: line_normal_def setOrthog_def pt_normalize_def Let_def
        v_def [symmetric] len_def [symmetric])
  have "dot (line_normal a q) p + - dot (line_normal a q) a
          = (fY v * (fX p - fX a) - fX v * (fY p - fY a)) / len"
    unfolding n using pos by (simp add: dot_def field_simps)
  then have "near_line a q p \<longleftrightarrow> \<bar>(fY v * (fX p - fX a) - fX v * (fY p - fY a)) / len\<bar> \<le> TOL"
    by (simp add: near_line_def)
  also have "\<dots> \<longleftrightarrow> \<bar>fY v * (fX p - fX a) - fX v * (fY p - fY a)\<bar> \<le> TOL * len"
    using pos by (simp add: abs_divide pos_divide_le_eq)
  finally show ?thesis
    by (simp add: len_def v_def [symmetric]) (simp add: pt_sub_def)
qed

text \<open>
  Claim C10. Of a cubic command the classifier is fed the three points after the start
  point. The classifier's data after the decoding loop is the fold of
  \<open>update_degenerate_test\<close> over the fed points of the commands, whatever the flattener
  answers: two flatteners for which the loop returns leave the same data. The loop
  returns whenever the flattener always answers a multiple of three points.
\<close>

theorem cubic_control_points_fed:
  "fed_points (kCubic_PathCmd p0 p1 p2 p3 # rest) = p1 # p2 # p3 # fed_points rest \<and>
   (get_segments_loop conv cmds data segments = Inr (data', segments') \<longrightarrow>
      data' = foldl update_degenerate_test data (fed_points cmds)) \<and>
   (get_segments_loop conv cmds data segments = Inr (data', segments') \<and>
    get_segments_loop conv' cmds data segments = Inr (data'', segments'') \<longrightarrow>
      data' = data'') \<and>
   ((\<forall>pts tol. 3 dvd length (conv pts tol)) \<longrightarrow>
      (\<exists>segs. get_segments_loop conv cmds data segments =
                Inr (foldl update_degenerate_test data (fed_points cmds), segs)))"
  using get_segments_loop_data [of conv cmds data segments data' segments']
    get_segments_loop_data [of conv' cmds data segments data'' segments'']
    get_segments_loop_total [of conv cmds data segments]
  by auto


lemma plain_contract: "\<forall>pts tol. 3 dvd length (convertCubicToQuads plain_External pts tol)"
  by (simp add: plain_External_def numeral_3_eq_3 [symmetric])

lemma plain_device_path: "device_path plain_External (plain_renderer path v i) = path"
  by (simp add: device_path_def plain_External_def plain_renderer_def)

lemma collinear_path_thin: "thin (fed_points (iter collinear_path))"
  by (simp add: collinear_path_def near_anchor_def near_line_def line_normal_def TOL_def eval_pt)

theorem cubic_control_points_fed_witness:
  "(\<forall>pts tol. 3 dvd length (convertCubicToQuads plain_External pts tol)) \<and>
   fed_points cubic_cmds = [mkPt 0 0, mkPt 1 0, mkPt 1 1, mkPt 0 1, mkPt 0 0] \<and>
   (\<exists>segs. get_segments_loop (convertCubicToQuads plain_External) cubic_cmds
             DegenerateTestData_new [] =
           Inr (foldl update_degenerate_test DegenerateTestData_new
                  [mkPt 0 0, mkPt 1 0, mkPt 1 1, mkPt 0 1, mkPt 0 0], segs)) \<and>
   get_segments_loop (\<lambda>pts tol. []) cubic_cmds DegenerateTestData_new [] =
     Inr (foldl update_degenerate_test DegenerateTestData_new
            [mkPt 0 0, mkPt 1 0, mkPt 1 1, mkPt 0 1, mkPt 0 0], [push_line (mkPt 0 0)])"
proof -
  have fp: "fed_points cubic_cmds = [mkPt 0 0, mkPt 1 0, mkPt 1 1, mkPt 0 1, mkPt 0 0]"
    by (simp add: cubic_cmds_def)
  have none: "cubic_segments [] 0 [] = Inr []"
    by (subst cubic_segments.simps) simp
  have l2: "get_segments_loop (\<lambda>pts tol. []) cubic_cmds DegenerateTestData_new [] =
     Inr (foldl update_degenerate_test DegenerateTestData_new
            [mkPt 0 0, mkPt 1 0, mkPt 1 1, mkPt 0 1, mkPt 0 0], [push_line (mkPt 0 0)])"
    by (simp add: cubic_cmds_def none)
  show ?thesis
    using cubic_control_points_fed [where conv = "convertCubicToQuads plain_External"
        and cmds = cubic_cmds and data = DegenerateTestData_new and segments = "[]"
        and conv' = "\<lambda>pts tol. []"] plain_contract l2
    by (simp add: fp)
qed


section \<open>The draw entry point\<close>

lemma state_calls_quiet:
  "\<not> list_ex is_reservation (state_calls ext r stageMask)"
  "\<not> list_ex is_draw (state_calls ext r stageMask)"
  by (simp_all add: state_calls_def split: option.splits)

lemma drawPath_unfold:
  assumes "isConvex (fPath r)" and "\<not> isEmpty (fPath r)"
  shows "drawPath ext r stageMask =
     (case get_segments (convertCubicToQuads ext) (device_path ext r) [] (mkPt 0 0) 0 0 of
        Inl e \<Rightarrow> Inl e
      | Inr (ok, segments, fanPt, vCount, iCount) \<Rightarrow>
          if \<not> ok then Inr (state_calls ext r stageMask @ [RestoreState])
          else if \<not> reserveVertexSpace (fTarget r) (vertex_layout ext stageMask) vCount then
            Inr (state_calls ext r stageMask
                 @ [ReserveVertexSpace (vertex_layout ext stageMask) vCount, RestoreState])
          else if \<not> reserveIndexSpace (fTarget r) iCount then
            Inr (state_calls ext r stageMask
                 @ [ReserveVertexSpace (vertex_layout ext stageMask) vCount,
                    ReserveIndexSpace iCount, ResetVertexSource, RestoreState])
          else
            Inr (state_calls ext r stageMask
                 @ [ReserveVertexSpace (vertex_layout ext stageMask) vCount,
                    ReserveIndexSpace iCount, SetVertexEdgeType,
                    DrawIndexed vCount iCount
                      (verts (create_vertices (distanceToLineBetween ext)
                                (quadDesignSpaceToUVCoords ext) segments fanPt))
                      (idxs (create_vertices (distanceToLineBetween ext)
                                (quadDesignSpaceToUVCoords ext) segments fanPt)),
                    RestoreState]))"
  using assms
  by (simp add: drawPath_def Let_def device_path_def state_calls_def
        split: sum.splits option.splits prod.splits)

lemma get_segments_degenerate:
  assumes "thin (fed_points (iter path))" and "\<forall>pts tol. 3 dvd length (conv pts tol)"
  shows "\<exists>segments'. get_segments conv path segments fanPt vCount iCount =
           Inr (False, segments', fanPt, vCount, iCount)"
proof -
  obtain segments' where
    "get_segments_loop conv (iter path) DegenerateTestData_new segments =
       Inr (foldl update_degenerate_test DegenerateTestData_new (fed_points (iter path)), segments')"
    using get_segments_loop_total [OF assms(2)] by blast
  then show ?thesis
    using assms(1) by (simp add: get_segments_def classifier_thin)
qed


text \<open>
  Claim C1, as amended. When the points fed from the path that \<open>drawPath\<close> decodes are
  thin (all near the anchor, or all after the first far point near the line of the anchor
  and that point; a single point and a single segment are), the flattener keeps its
  contract and the renderer's path is convex, then the verdict is degenerate,
  \<open>get_segments\<close> returns false and leaves its out-parameters as they were, and
  \<open>drawPath\<close> returns after calls among which there is no reservation and no draw.
\<close>

theorem degenerate_path_draws_nothing:
  assumes "thin (fed_points (iter (device_path ext r)))"
    and "\<forall>pts tol. 3 dvd length (convertCubicToQuads ext pts tol)"
    and "isConvex (fPath r)"
  shows "isDegenerate (foldl update_degenerate_test DegenerateTestData_new
                         (fed_points (iter (device_path ext r)))) \<and>
         (\<exists>segments'. get_segments (convertCubicToQuads ext) (device_path ext r)
                         segments fanPt vCount iCount
                       = Inr (False, segments', fanPt, vCount, iCount)) \<and>
         (\<exists>calls. drawPath ext r stageMask = Inr calls \<and>
                  \<not> list_ex is_reservation calls \<and> \<not> list_ex is_draw calls)"
proof (intro conjI)
  show "isDegenerate (foldl update_degenerate_test DegenerateTestData_new
                         (fed_points (iter (device_path ext r))))"
    using assms(1) by (simp add: classifier_thin)
next
  show "\<exists>segments'. get_segments (convertCubicToQuads ext) (device_path ext r)
                         segments fanPt vCount iCount
                       = Inr (False, segments', fanPt, vCount, iCount)"
    using get_segments_degenerate [OF assms(1) assms(2)] by blast
next
  show "\<exists>calls. drawPath ext r stageMask = Inr calls \<and>
                  \<not> list_ex is_reservation calls \<and> \<not> list_ex is_draw calls"
  proof (cases "isEmpty (fPath r)")
    case True
    then show ?thesis using assms(3) by (simp add: drawPath_def)
  next
    case False
    obtain segments' where
      "get_segments (convertCubicToQuads ext) (device_path ext r) [] (mkPt 0 0) 0 0
         = Inr (False, segments', mkPt 0 0, 0, 0)"
      using get_segments_degenerate [OF assms(1) assms(2)] by blast
    then have "drawPath ext r stageMask = Inr (state_calls ext r stageMask @ [RestoreState])"
      by (simp add: drawPath_unfold [OF assms(3) False])
    then show ?thesis
      using state_calls_quiet [of ext r stageMask] by simp
  qed
qed


theorem degenerate_path_draws_nothing_witness:
  "thin (fed_points (iter (device_path plain_External (plain_renderer collinear_path True True)))) \<and>
   (\<forall>pts tol. 3 dvd length (convertCubicToQuads plain_External pts tol)) \<and>
   isConvex (fPath (plain_renderer collinear_path True True)) \<and>
   (\<exists>calls. drawPath plain_External (plain_renderer collinear_path True True) 0 = Inr calls \<and>
            \<not> list_ex is_reservation calls \<and> \<not> list_ex is_draw calls)"
proof -
  have t: "thin (fed_points (iter (device_path plain_External
              (plain_renderer collinear_path True True))))"
    by (simp add: plain_device_path collinear_path_thin)
  have c: "isConvex (fPath (plain_renderer collinear_path True True))"
    by (simp add: plain_renderer_def collinear_path_def)
  show ?thesis
    using degenerate_path_draws_nothing [OF t plain_contract c, of "[]" "mkPt 0 0" 0 0 0]
      t plain_contract c
    by blast
qed



text \<open>
  The claim as it was stated holds for any single line. The corners of the triangle
  (0, 1/20), (0, -1/20), (1, 0) are all within 1/20 of the x-axis, which is less than the
  tolerance; the classifier takes the line through the first two corners, from which the
  third is at distance 1; so the path is not degenerate, \<open>get_segments\<close> returns true
  with 27 vertices and 45 indices, and \<open>drawPath\<close> reserves both buffers and draws.
\<close>

lemma sqrt_hundredth: "sqrt (1 / 100) = 1 / 10"
  by (rule real_sqrt_unique) (simp_all add: power2_eq_square)

lemma sqrt_hundred: "sqrt 100 = 10"
  by (rule real_sqrt_unique) simp_all

lemma thin_triangle_not_thin: "\<not> thin (fed_points (iter thin_triangle))"
  by (simp add: thin_triangle_def near_anchor_def near_line_def line_normal_def TOL_def eval_pt
        sqrt_hundredth sqrt_hundred real_sqrt_divide)

lemma thin_triangle_near_axis:
  "list_all (\<lambda>p. \<bar>dot (mkPt 0 1) p + 0\<bar> \<le> TOL) (fed_points (iter thin_triangle))"
  by (simp add: thin_triangle_def TOL_def eval_pt)

lemma get_segments_lines:
  assumes "get_segments_loop conv (iter path) DegenerateTestData_new [] = Inr (data, segments)"
    and "\<not> isDegenerate data" and "center_of_mass segments = Inr fanPt'"
    and "cheapComputeDirection path = Some dir"
  shows "\<exists>segments'.
           get_segments conv path [] fanPt vCount iCount =
             Inr (True, segments', fanPt',
                  5 * length (filter (\<lambda>s. fType s = kLine) segments)
                    + 6 * length (filter (\<lambda>s. fType s = kQuad) segments)
                    + 4 * length segments,
                  9 * length (filter (\<lambda>s. fType s = kLine) segments)
                    + 12 * length (filter (\<lambda>s. fType s = kQuad) segments)
                    + 6 * length segments)"
proof -
  obtain segments' where
    "compute_vectors segments dir =
       Inr (segments', fanPt',
            5 * length (filter (\<lambda>s. fType s = kLine) segments)
              + 6 * length (filter (\<lambda>s. fType s = kQuad) segments)
              + 4 * length segments,
            9 * length (filter (\<lambda>s. fType s = kLine) segments)
              + 12 * length (filter (\<lambda>s. fType s = kQuad) segments)
              + 6 * length segments)"
    using compute_vectors_counts [OF assms(3), of dir] by blast
  then show ?thesis
    using assms by (simp add: get_segments_def)
qed

lemma thin_triangle_get_segments:
  "\<exists>segments' fanPt'.
     get_segments conv thin_triangle [] fanPt vCount iCount = Inr (True, segments', fanPt', 27, 45)"
proof -
  define segs where
    "segs = [push_line (mkPt 0 (- (1 / 20))), push_line (mkPt 1 0), push_line (mkPt 0 (1 / 20))]"
  have loop: "get_segments_loop conv (iter thin_triangle) DegenerateTestData_new [] =
      Inr (foldl update_degenerate_test DegenerateTestData_new (fed_points (iter thin_triangle)),
           segs)"
    by (simp add: thin_triangle_def segs_def)
  have nd: "\<not> isDegenerate (foldl update_degenerate_test DegenerateTestData_new
                               (fed_points (iter thin_triangle)))"
    by (simp add: classifier_thin thin_triangle_not_thin)
  have ne: "segs \<noteq> []" by (simp add: segs_def)
  have rng: "in_range segs"
    by (simp add: in_range_def segs_def coord_bound_def push_line_def endPt_def mkPt_def)
  obtain c where fan: "center_of_mass segs = Inr c"
    using center_of_mass_in_range [OF ne rng] by blast
  have dir: "cheapComputeDirection thin_triangle = Some kCW_Direction"
    by (simp add: thin_triangle_def)
  show ?thesis
    using get_segments_lines [OF loop nd fan dir, of fanPt vCount iCount]
    by (auto simp add: segs_def push_line_def)
qed

theorem thin_triangle_counterexample:
  "list_all (\<lambda>p. \<bar>dot (mkPt 0 1) p + 0\<bar> \<le> TOL) (fed_points (iter thin_triangle)) \<and>
   \<not> isDegenerate (foldl update_degenerate_test DegenerateTestData_new
                      (fed_points (iter thin_triangle))) \<and>
   (case get_segments (convertCubicToQuads plain_External) thin_triangle [] (mkPt 0 0) 0 0 of
      Inl e \<Rightarrow> False
    | Inr (ok, segments, fanPt, vCount, iCount) \<Rightarrow> ok \<and> vCount = 27 \<and> iCount = 45) \<and>
   (case drawPath plain_External (plain_renderer thin_triangle True True) 0 of
      Inl e \<Rightarrow> False
    | Inr calls \<Rightarrow> list_ex is_reservation calls \<and> list_ex is_draw calls)"
proof -
  obtain segments' fanPt' where
    gs: "get_segments (convertCubicToQuads plain_External) thin_triangle [] (mkPt 0 0) 0 0
           = Inr (True, segments', fanPt', 27, 45)"
    using thin_triangle_get_segments by blast
  have conv: "isConvex (fPath (plain_renderer thin_triangle True True))"
    and ne: "\<not> isEmpty (fPath (plain_renderer thin_triangle True True))"
    by (simp_all add: plain_renderer_def thin_triangle_def)
  have "case drawPath plain_External (plain_renderer thin_triangle True True) 0 of
      Inl e \<Rightarrow> False
    | Inr calls \<Rightarrow> list_ex is_reservation calls \<and> list_ex is_draw calls"
    by (simp add: drawPath_unfold [OF conv ne] plain_device_path gs)
       (simp add: plain_renderer_def)
  then show ?thesis
    using thin_triangle_near_axis
    by (simp add: gs classifier_thin thin_triangle_not_thin)
qed


text \<open>
  Claim C7. When \<open>get_segments\<close> has returned true with the counts: if the vertex space
  is granted and the index space is refused, \<open>drawPath\<close> makes exactly the calls on the
  draw state, the two reservations, \<open>ResetVertexSource\<close> and the restoring of the state,
  in this order; if the vertex space is refused, it makes the calls on the draw state, the
  vertex reservation and the restoring of the state. In both cases no draw is submitted.
\<close>

theorem drawPath_reservation_failure:
  assumes "isConvex (fPath r)" and "\<not> isEmpty (fPath r)"
    and "get_segments (convertCubicToQuads ext) (device_path ext r) [] (mkPt 0 0) 0 0
           = Inr (True, segments, fanPt, vCount, iCount)"
  shows "(reserveVertexSpace (fTarget r) (vertex_layout ext stageMask) vCount \<and>
          \<not> reserveIndexSpace (fTarget r) iCount \<longrightarrow>
            drawPath ext r stageMask =
              Inr (state_calls ext r stageMask
                   @ [ReserveVertexSpace (vertex_layout ext stageMask) vCount,
                      ReserveIndexSpace iCount, ResetVertexSource, RestoreState])) \<and>
         (\<not> reserveVertexSpace (fTarget r) (vertex_layout ext stageMask) vCount \<longrightarrow>
            drawPath ext r stageMask =
              Inr (state_calls ext r stageMask
                   @ [ReserveVertexSpace (vertex_layout ext stageMask) vCount, RestoreState])) \<and>
         (\<not> (reserveVertexSpace (fTarget r) (vertex_layout ext stageMask) vCount \<and>
             reserveIndexSpace (fTarget r) iCount) \<longrightarrow>
            (\<exists>calls. drawPath ext r stageMask = Inr calls \<and> \<not> list_ex is_draw calls)) \<and>
         \<not> list_ex is_draw (state_calls ext r stageMask) \<and>
         \<not> list_ex is_reservation (state_calls ext r stageMask) \<and>
         ResetVertexSource \<notin> set (state_calls ext r stageMask)"
proof -
  have quiet: "\<not> list_ex is_draw (state_calls ext r stageMask)"
    "\<not> list_ex is_reservation (state_calls ext r stageMask)"
    using state_calls_quiet [of ext r stageMask] by simp_all
  have noreset: "ResetVertexSource \<notin> set (state_calls ext r stageMask)"
    by (simp add: state_calls_def split: option.splits)
  show ?thesis
    using quiet noreset
    by (simp add: drawPath_unfold [OF assms(1) assms(2)] assms(3))
qed


lemma unit_square_get_segments:
  "\<exists>segments'.
      get_segments conv unit_square [] fanPt0 vCount0 iCount0 =
        Inr (True, segments', mkPt (1 / 2) (1 / 2), 36, 60)"
proof -
  have nd: "\<not> isDegenerate \<lparr>fStage = kNonDegenerate, fFirstPoint = mkPt 0 0,
                            fLineNormal = mkPt 0 (- 1), fLineC = 0\<rparr>"
    by (simp add: isDegenerate_def)
  have dir: "cheapComputeDirection unit_square = Some kCCW_Direction"
    by (simp add: unit_square_def)
  have lines: "\<forall>s\<in>set unit_square_segments. fType s = kLine"
    by (simp add: unit_square_segments_def push_line_def)
  have len: "length unit_square_segments = 4"
    by (simp add: unit_square_segments_def)
  show ?thesis
    using get_segments_lines [OF unit_square_loop [of conv] nd unit_square_center dir,
        of fanPt0 vCount0 iCount0]
    by (auto simp add: all_lines_filter [OF lines] len)
qed

lemma plain_layout: "vertex_layout plain_External 0 = 256"
  by (simp add: vertex_layout_def plain_External_def upt_rec numeral_3_eq_3)

lemma plain_state_calls:
  "state_calls plain_External (plain_renderer path v i) 0
     = [SaveState, PreConcatSamplerMatrices 0 (), SetViewMatrix ()]"
  by (simp add: state_calls_def plain_External_def plain_renderer_def)

theorem drawPath_reservation_failure_witness:
  "isConvex (fPath (plain_renderer unit_square True False)) \<and>
   \<not> isEmpty (fPath (plain_renderer unit_square True False)) \<and>
   drawPath plain_External (plain_renderer unit_square True False) 0 =
     Inr [SaveState, PreConcatSamplerMatrices 0 (), SetViewMatrix (),
          ReserveVertexSpace 256 36, ReserveIndexSpace 60, ResetVertexSource, RestoreState] \<and>
   drawPath plain_External (plain_renderer unit_square False True) 0 =
     Inr [SaveState, PreConcatSamplerMatrices 0 (), SetViewMatrix (),
          ReserveVertexSpace 256 36, RestoreState]"
proof -
  obtain segments' where
    gs: "get_segments (convertCubicToQuads plain_External) unit_square [] (mkPt 0 0) 0 0
           = Inr (True, segments', mkPt (1 / 2) (1 / 2), 36, 60)"
    using unit_square_get_segments by blast
  have c: "isConvex (fPath (plain_renderer unit_square v i))"
    and ne: "\<not> isEmpty (fPath (plain_renderer unit_square v i))" for v i
    by (simp_all add: plain_renderer_def unit_square_def)
  have gs': "get_segments (convertCubicToQuads plain_External)
        (device_path plain_External (plain_renderer unit_square v i)) [] (mkPt 0 0) 0 0
           = Inr (True, segments', mkPt (1 / 2) (1 / 2), 36, 60)" for v i
    by (simp add: plain_device_path gs)
  have t: "reserveVertexSpace (fTarget (plain_renderer unit_square v i)) l n = v"
    "reserveIndexSpace (fTarget (plain_renderer unit_square v i)) n = i" for v i l n
    by (simp_all add: plain_renderer_def)
  show ?thesis
    using drawPath_reservation_failure [OF c ne gs', of True False 0]
      drawPath_reservation_failure [OF c ne gs', of False True 0] c ne
    by (simp add: t plain_layout plain_state_calls)
qed


end
